theory Spec2Isabelle
  imports Main "HOL-Library.Multiset"
begin

section \<open>Multipart transfer of the OSS client (oss/multipart.go)\<close>

text \<open>
  The methods of \<^verbatim>\<open>Bucket\<close> in oss/multipart.go talk to the outside through a few
  calls that are not part of that file: the HTTP request \<^verbatim>\<open>bucket.do\<close>, the local file
  system (\<^verbatim>\<open>os.Open\<close>, \<^verbatim>\<open>os.OpenFile\<close>, \<^verbatim>\<open>SplitFileByPartSize\<close>), the object reads
  \<^verbatim>\<open>GetObjectDetailedMeta\<close> and \<^verbatim>\<open>GetObject\<close>, and the XML codec. The model makes each of
  them a field of an environment. An effectful call answers as a function of the history
  (every call made so far, with its answer), so that any behaviour of the service and of
  the file system, deterministic in the history, is one environment. Each call is appended
  to the history as it is made; the theorems below read off the history which requests an
  operation issued and in which order.

  A Go function returning \<^verbatim>\<open>(T, error)\<close> is a pair of a value and an \<open>error option\<close>
  (\<open>None\<close> is \<^verbatim>\<open>nil\<close>); the value beside an error is Go's zero value, as in the source.
\<close>

subsection \<open>Values\<close>

datatype numErr = ErrSyntax | ErrRange

datatype error =
    errorString string
  | NumError string string numErr

text \<open>
  \<open>errorString\<close> is the value of \<^verbatim>\<open>errors.New\<close>, and stands for any error of a
  collaborator; \<open>NumError Func Num Err\<close> is strconv's \<^verbatim>\<open>*NumError\<close>.
\<close>

datatype Option =
    RangeOpt int int
  | OtherOption string string

text \<open>
  A request option. \<open>RangeOpt start end\<close> is the value of \<^verbatim>\<open>Range(start, end)\<close>, the
  option that asks for the bytes from \<open>start\<close> to \<open>end\<close>, both included (the constant
  \<open>Range\<close> of HOL is taken, hence the suffix); every other option is a name and a value.
\<close>

record InitiateMultipartUploadResult =
  Key :: string
  UploadID :: string

record UploadPart =
  PartNumber :: int
  ETag :: string

record FileChunk =
  Number :: int
  Offset :: int
  Size :: int

type_synonym CompleteMultipartUploadResult = string

type_synonym Header = "string \<Rightarrow> string"

definition Header_Get :: "Header \<Rightarrow> string \<Rightarrow> string" where
  "Header_Get h k = h k"

text \<open>
  An \<^verbatim>\<open>http.Header\<close> is read only through its method \<^verbatim>\<open>Get\<close>, which belongs to Go's
  library: the model takes a header for what \<^verbatim>\<open>Get\<close> answers on it, the value under a
  key and the empty string when there is none. How the library spells and compares keys
  stays inside that function.
\<close>

text \<open>
  The names of the two headers are constants declared outside oss/multipart.go; they are
  given their usual values, and only the runs of the concrete environment depend on them.
\<close>

definition HTTPHeaderEtag :: string where
  "HTTPHeaderEtag = ''ETag''"

definition HTTPHeaderContentLength :: string where
  "HTTPHeaderContentLength = ''Content-Length''"

text \<open>
  Modelled from the spec: the constants \<^verbatim>\<open>MinPartSize\<close> and \<^verbatim>\<open>MaxPartSize\<close> are declared
  outside oss/multipart.go; the spec gives a minimum of 100 KiB and a maximum of 5 GiB.
\<close>

definition MinPartSize :: int where
  "MinPartSize = 100 * 1024"

definition MaxPartSize :: int where
  "MaxPartSize = 5 * 1024 * 1024 * 1024"

subsection \<open>Requests, the history and the environment\<close>

datatype body =
    NoBody
  | LimitedFile string int int
  | Buffer string

text \<open>
  The \<^verbatim>\<open>data\<close> argument of \<^verbatim>\<open>bucket.do\<close>: \<^verbatim>\<open>nil\<close>; or \<open>LimitedFile filePath
  startPosition partSize\<close>, an \<^verbatim>\<open>io.LimitedReader\<close> with \<open>N = partSize\<close> over the file opened
  from \<open>filePath\<close>, on which \<^verbatim>\<open>fd.Seek(startPosition, os.SEEK_SET)\<close> was called (the code
  drops the result of the seek, so the value records the position asked for, not the one
  reached); or a buffer holding the marshalled XML.
\<close>

record request =
  httpMethod :: string
  objectName :: string
  urlParams :: string
  subResource :: string
  reqOptions :: "Option list"
  reqData :: body

record response =
  statusCode :: int
  headers :: Header
  respBody :: string

type_synonym stream = "string \<times> error option"

text \<open>
  The body returned by \<^verbatim>\<open>GetObject\<close>, as \<^verbatim>\<open>io.CopyBuffer\<close> consumes it: the bytes that
  reach the destination file, and the error that ends the copy, if any (a failed read of
  the stream or a failed write to the file).
\<close>

datatype event =
    EvDo request "response \<times> error option"
  | EvSplit string int "FileChunk list \<times> error option"
  | EvOpen string "error option"
  | EvMeta string "Header \<times> error option"
  | EvOpenFile string "error option"
  | EvGetObject string "Option list" "stream \<times> error option"

record world =
  trace :: "event list"
  written :: string

text \<open>
  \<open>trace\<close> is the history; \<open>written\<close> is what \<^verbatim>\<open>DownloadFile\<close> has written through the
  file descriptor of its destination file, in order.
\<close>

record env =
  do_reply :: "event list \<Rightarrow> request \<Rightarrow> response \<times> error option"
  addContentType :: "Option list \<Rightarrow> string \<Rightarrow> Option list"
  xmlUnmarshal_imur :: "string \<Rightarrow> InitiateMultipartUploadResult \<times> error option"
  xmlUnmarshal_cmur :: "string \<Rightarrow> CompleteMultipartUploadResult \<times> error option"
  xml_Marshal :: "UploadPart list \<Rightarrow> string \<times> error option"
  sort_Sort :: "(UploadPart \<Rightarrow> UploadPart \<Rightarrow> bool) \<Rightarrow> UploadPart list \<Rightarrow> UploadPart list"
  checkRespCode :: "int \<Rightarrow> int list \<Rightarrow> error option"
  os_Open :: "event list \<Rightarrow> string \<Rightarrow> error option"
  SplitFileByPartSize :: "event list \<Rightarrow> string \<Rightarrow> int \<Rightarrow> FileChunk list \<times> error option"
  GetObjectDetailedMeta :: "event list \<Rightarrow> string \<Rightarrow> Header \<times> error option"
  os_OpenFile :: "event list \<Rightarrow> string \<Rightarrow> error option"
  GetObject :: "event list \<Rightarrow> string \<Rightarrow> Option list \<Rightarrow> stream \<times> error option"

definition record_event :: "event \<Rightarrow> world \<Rightarrow> world" where
  "record_event ev w = w\<lparr>trace := trace w @ [ev]\<rparr>"

definition bucket_do :: "env \<Rightarrow> request \<Rightarrow> world \<Rightarrow> (response \<times> error option) \<times> world" where
  "bucket_do E req w =
     (let reply = do_reply E (trace w) req in (reply, record_event (EvDo req reply) w))"

subsection \<open>strconv.Itoa\<close>

fun digits :: "nat \<Rightarrow> string" where
  "digits n =
     (if n < 10 then [''0123456789'' ! n] else digits (n div 10) @ [''0123456789'' ! (n mod 10)])"

declare digits.simps [simp del]

definition Itoa :: "int \<Rightarrow> string" where
  "Itoa i = (if i < 0 then CHR ''-'' # digits (nat (- i)) else digits (nat i))"

subsection \<open>The session operations\<close>

definition InitiateMultipartUpload ::
  "env \<Rightarrow> string \<Rightarrow> Option list \<Rightarrow> world \<Rightarrow>
   (InitiateMultipartUploadResult \<times> error option) \<times> world" where
  "InitiateMultipartUpload E objectKey options w =
     (let opts = addContentType E options objectKey;
          ((resp, err), w1) =
            bucket_do E \<lparr>httpMethod = ''POST'', objectName = objectKey, urlParams = ''uploads'',
              subResource = ''uploads'', reqOptions = opts, reqData = NoBody\<rparr> w
      in case err of
           Some e \<Rightarrow> ((\<lparr>Key = [], UploadID = []\<rparr>, Some e), w1)
         | None \<Rightarrow> (xmlUnmarshal_imur E (respBody resp), w1))"

definition UploadPartFromFile ::
  "env \<Rightarrow> InitiateMultipartUploadResult \<Rightarrow> string \<Rightarrow> int \<Rightarrow> int \<Rightarrow> int \<Rightarrow> world \<Rightarrow>
   (UploadPart \<times> error option) \<times> world" where
  "UploadPartFromFile E imur filePath startPosition partSize partNumber w =
     (let err = os_Open E (trace w) filePath;
          w1 = record_event (EvOpen filePath err) w
      in case err of
           Some e \<Rightarrow> ((\<lparr>PartNumber = 0, ETag = []\<rparr>, Some e), w1)
         | None \<Rightarrow>
             (let params = ''partNumber='' @ Itoa partNumber @ ''&uploadId='' @ UploadID imur;
                  ((resp, err), w2) =
                    bucket_do E \<lparr>httpMethod = ''PUT'', objectName = Key imur, urlParams = params,
                      subResource = params, reqOptions = [],
                      reqData = LimitedFile filePath startPosition partSize\<rparr> w1
              in case err of
                   Some e \<Rightarrow> ((\<lparr>PartNumber = 0, ETag = []\<rparr>, Some e), w2)
                 | None \<Rightarrow>
                     ((\<lparr>PartNumber = partNumber,
                        ETag = Header_Get (headers resp) HTTPHeaderEtag\<rparr>, None), w2)))"

text \<open>
  Modelled from the spec: the type \<^verbatim>\<open>uploadParts\<close>, whose \<^verbatim>\<open>Less\<close> method
  \<^verbatim>\<open>sort.Sort\<close> calls, is declared outside oss/multipart.go; the spec orders the parts by
  ascending ordinal, the part number.
\<close>

definition uploadParts_Less :: "UploadPart \<Rightarrow> UploadPart \<Rightarrow> bool" where
  "uploadParts_Less a b = (PartNumber a < PartNumber b)"

definition sortParts :: "env \<Rightarrow> UploadPart list \<Rightarrow> UploadPart list" where
  "sortParts E parts = sort_Sort E uploadParts_Less parts"

text \<open>
  The statement \<^verbatim>\<open>sort.Sort(uploadParts(parts))\<close> of \<^verbatim>\<open>CompleteMultipartUpload\<close>:
  Go's library routine, run with the \<^verbatim>\<open>Less\<close> of \<^verbatim>\<open>uploadParts\<close>.
\<close>

definition CompleteMultipartUpload ::
  "env \<Rightarrow> InitiateMultipartUploadResult \<Rightarrow> UploadPart list \<Rightarrow> world \<Rightarrow>
   (CompleteMultipartUploadResult \<times> error option) \<times> world" where
  "CompleteMultipartUpload E imur parts w =
     (let sorted_parts = sortParts E parts;
          (bs, err) = xml_Marshal E sorted_parts
      in case err of
           Some e \<Rightarrow> (([], Some e), w)
         | None \<Rightarrow>
             (let params = ''uploadId='' @ UploadID imur;
                  ((resp, err), w1) =
                    bucket_do E \<lparr>httpMethod = ''POST'', objectName = Key imur, urlParams = params,
                      subResource = params, reqOptions = [], reqData = Buffer bs\<rparr> w
              in case err of
                   Some e \<Rightarrow> (([], Some e), w1)
                 | None \<Rightarrow> (xmlUnmarshal_cmur E (respBody resp), w1)))"

definition AbortMultipartUpload ::
  "env \<Rightarrow> InitiateMultipartUploadResult \<Rightarrow> world \<Rightarrow> error option \<times> world" where
  "AbortMultipartUpload E imur w =
     (let params = ''uploadId='' @ UploadID imur;
          ((resp, err), w1) =
            bucket_do E \<lparr>httpMethod = ''DELETE'', objectName = Key imur, urlParams = params,
              subResource = params, reqOptions = [], reqData = NoBody\<rparr> w
      in case err of
           Some e \<Rightarrow> (Some e, w1)
         | None \<Rightarrow> (checkRespCode E (statusCode resp) [204], w1))"

subsection \<open>UploadFile\<close>

fun uploadChunks ::
  "env \<Rightarrow> InitiateMultipartUploadResult \<Rightarrow> string \<Rightarrow> FileChunk list \<Rightarrow> UploadPart list \<Rightarrow>
   world \<Rightarrow> (UploadPart list \<times> error option) \<times> world" where
  "uploadChunks E imur filePath [] parts w = ((parts, None), w)"
| "uploadChunks E imur filePath (chunk # chunks) parts w =
     (let ((part, err), w1) =
            UploadPartFromFile E imur filePath (Offset chunk) (Size chunk) (Number chunk) w
      in case err of
           Some e \<Rightarrow> ((parts, Some e), w1)
         | None \<Rightarrow> uploadChunks E imur filePath chunks (parts @ [part]) w1)"

text \<open>
  The \<^verbatim>\<open>for _, chunk := range chunks\<close> loop of \<^verbatim>\<open>UploadFile\<close>: \<open>parts\<close> is the slice
  built so far; the loop ends at the first part whose transfer fails, with that error.
\<close>

definition UploadFile ::
  "env \<Rightarrow> string \<Rightarrow> string \<Rightarrow> int \<Rightarrow> Option list \<Rightarrow> world \<Rightarrow> error option \<times> world" where
  "UploadFile E objectKey filePath partSize options w =
     (if partSize < MinPartSize \<or> partSize > MaxPartSize
      then (Some (errorString ''oss: part size invalid range (1024KB, 5GB]''), w)
      else
        (let (chunks, err) = SplitFileByPartSize E (trace w) filePath partSize;
             w1 = record_event (EvSplit filePath partSize (chunks, err)) w
         in case err of
              Some e \<Rightarrow> (Some e, w1)
            | None \<Rightarrow>
                (let ((imur, err), w2) = InitiateMultipartUpload E objectKey options w1
                 in case err of
                      Some e \<Rightarrow> (Some e, w2)
                    | None \<Rightarrow>
                        (let ((parts, err), w3) = uploadChunks E imur filePath chunks [] w2
                         in case err of
                              Some e \<Rightarrow>
                                (let (aerr, w4) = AbortMultipartUpload E imur w3
                                 in (Some e, w4))
                            | None \<Rightarrow>
                                (let ((out, err), w4) = CompleteMultipartUpload E imur parts w3
                                 in case err of
                                      Some e \<Rightarrow>
                                        (let (aerr, w5) = AbortMultipartUpload E imur w4
                                         in (Some e, w5))
                                    | None \<Rightarrow> (None, w4))))))"

subsection \<open>strconv.ParseInt\<close>

text \<open>
  \<^verbatim>\<open>strconv.ParseInt(s, 10, 0)\<close> of Go's library, on a platform whose \<^verbatim>\<open>int\<close> has 64
  bits, after the library's documentation: an empty string or a character that is not a
  decimal digit gives the value 0 and a syntax error; a number that does not fit gives the
  largest value of its sign and a range error. The digits are read from the left, and the
  number is found too large at the digit that makes it so, before the characters after it
  are looked at.
\<close>

definition maxUint64 :: nat where
  "maxUint64 = 2 ^ 64 - 1"

fun ParseUint_digits :: "string \<Rightarrow> nat \<Rightarrow> string \<Rightarrow> nat \<times> error option" where
  "ParseUint_digits s0 n [] = (n, None)"
| "ParseUint_digits s0 n (c # cs) =
     (if (48::nat) \<le> of_char c \<and> of_char c \<le> (57::nat)
      then
        (let d = of_char c - (48::nat)
         in if n \<ge> maxUint64 div 10 + 1
            then (maxUint64, Some (NumError ''ParseUint'' s0 ErrRange))
            else
              (let n1 = n * 10 + d
               in if n1 > maxUint64
                  then (maxUint64, Some (NumError ''ParseUint'' s0 ErrRange))
                  else ParseUint_digits s0 n1 cs))
      else (0, Some (NumError ''ParseUint'' s0 ErrSyntax)))"

definition ParseUint :: "string \<Rightarrow> nat \<times> error option" where
  "ParseUint s =
     (if s = [] then (0, Some (NumError ''ParseUint'' s ErrSyntax))
      else ParseUint_digits s 0 s)"

definition ParseInt :: "string \<Rightarrow> int \<times> error option" where
  "ParseInt s0 =
     (if s0 = [] then (0, Some (NumError ''ParseInt'' s0 ErrSyntax))
      else
        (let neg = (hd s0 = CHR ''-'');
             s = (if hd s0 = CHR ''+'' \<or> hd s0 = CHR ''-'' then tl s0 else s0);
             (un, err) = ParseUint s
         in case err of
              Some (NumError f n ErrSyntax) \<Rightarrow> (0, Some (NumError ''ParseInt'' s0 ErrSyntax))
            | _ \<Rightarrow>
                (let cutoff = (2::nat) ^ 63
                 in if \<not> neg \<and> un \<ge> cutoff
                    then (int cutoff - 1, Some (NumError ''ParseInt'' s0 ErrRange))
                    else if neg \<and> un > cutoff
                    then (- int cutoff, Some (NumError ''ParseInt'' s0 ErrRange))
                    else (if neg then - int un else int un, None))))"

subsection \<open>DownloadFile\<close>

definition int64 :: "int \<Rightarrow> int" where
  "int64 x = signed_take_bit 63 x"

text \<open>
  The value of an \<^verbatim>\<open>int64\<close> expression whose mathematical value is \<open>x\<close>: Go's
  arithmetic wraps around modulo \<open>2 ^ 64\<close>.
\<close>

text \<open>
  Modelled from the spec: \<^verbatim>\<open>GetPartEnd\<close> is defined outside oss/multipart.go; the spec
  gives the end of the range that starts at \<open>i\<close> as \<open>min (i + chunk - 1) (totalSize - 1)\<close>.
\<close>

definition GetPartEnd :: "int \<Rightarrow> int \<Rightarrow> int \<Rightarrow> int" where
  "GetPartEnd i objectSize partSize = min (i + partSize - 1) (objectSize - 1)"

definition downloadPart ::
  "env \<Rightarrow> string \<Rightarrow> int \<Rightarrow> int \<Rightarrow> int \<Rightarrow> Option list \<Rightarrow> world \<Rightarrow>
   (error \<times> world) + (int \<times> Option list \<times> world)" where
  "downloadPart E objectKey objectSize partSize i options w =
     (let option = RangeOpt i (GetPartEnd i objectSize partSize);
          options1 = options @ [option];
          (r, err) = GetObject E (trace w) objectKey options1;
          w1 = record_event (EvGetObject objectKey options1 (r, err)) w
      in case err of
           Some e \<Rightarrow> Inl (e, w1)
         | None \<Rightarrow>
             (let (bytes, cerr) = r;
                  w2 = w1\<lparr>written := written w1 @ bytes\<rparr>
              in case cerr of
                   Some e \<Rightarrow> Inl (e, w2)
                 | None \<Rightarrow> Inr (int64 (i + partSize), options1, w2)))"

text \<open>
  One iteration of the loop of \<^verbatim>\<open>DownloadFile\<close>, for \<open>i < objectSize\<close>: \<open>Inl\<close> is the
  \<^verbatim>\<open>return err\<close> after \<^verbatim>\<open>GetObject\<close> or after \<^verbatim>\<open>io.CopyBuffer\<close>; \<open>Inr\<close> is the state
  the next iteration starts from, after \<^verbatim>\<open>i += partSize\<close>. The copy buffer has the
  configured size \<^verbatim>\<open>IOBufSize\<close>, which is taken to be positive (the size only bounds the
  steps of the copy; with no buffer at all \<^verbatim>\<open>io.CopyBuffer\<close> would panic). The deferred
  \<^verbatim>\<open>Close\<close> calls release local handles and are not recorded.
\<close>

partial_function (option) downloadLoop ::
  "env \<Rightarrow> string \<Rightarrow> int \<Rightarrow> int \<Rightarrow> int \<Rightarrow> Option list \<Rightarrow> world \<Rightarrow> (error option \<times> world) option"
where
  "downloadLoop E objectKey objectSize partSize i options w =
     (if i < objectSize
      then
        (case downloadPart E objectKey objectSize partSize i options w of
           Inl (e, w1) \<Rightarrow> Some (Some e, w1)
         | Inr (i1, options1, w1) \<Rightarrow> downloadLoop E objectKey objectSize partSize i1 options1 w1)
      else Some (None, w))"

text \<open>
  The loop may run forever when \<open>i + partSize\<close> wraps around, so its value is an option:
  \<open>None\<close> is the run that never returns.
\<close>

definition DownloadFile ::
  "env \<Rightarrow> string \<Rightarrow> string \<Rightarrow> int \<Rightarrow> Option list \<Rightarrow> world \<Rightarrow> (error option \<times> world) option" where
  "DownloadFile E objectKey filePath partSize options w =
     (if partSize < 1 \<or> partSize > MaxPartSize
      then Some (Some (errorString ''oss: part size invalid range (1, 5GB]''), w)
      else
        (let (meta, err) = GetObjectDetailedMeta E (trace w) objectKey;
             w1 = record_event (EvMeta objectKey (meta, err)) w
         in case err of
              Some e \<Rightarrow> Some (Some e, w1)
            | None \<Rightarrow>
                (let err = os_OpenFile E (trace w1) filePath;
                     w2 = record_event (EvOpenFile filePath err) w1
                 in case err of
                      Some e \<Rightarrow> Some (Some e, w2)
                    | None \<Rightarrow>
                        (let (objectSize, perr) =
                               ParseInt (Header_Get meta HTTPHeaderContentLength)
                         in downloadLoop E objectKey objectSize partSize 0 options w2))))"

subsection \<open>Reading the history\<close>

definition newEvents :: "world \<Rightarrow> world \<Rightarrow> event list" where
  "newEvents w w' = drop (length (trace w)) (trace w')"

fun isAbort :: "event \<Rightarrow> bool" where
  "isAbort (EvDo req reply) = (httpMethod req = ''DELETE'')"
| "isAbort ev = False"

fun isComplete :: "event \<Rightarrow> bool" where
  "isComplete (EvDo req reply) = (httpMethod req = ''POST'' \<and> take 9 (urlParams req) = ''uploadId='')"
| "isComplete ev = False"

fun readOptions :: "event list \<Rightarrow> Option list list" where
  "readOptions [] = []"
| "readOptions (EvGetObject k opts reply # evs) = opts # readOptions evs"
| "readOptions (ev # evs) = readOptions evs"

fun readData :: "event list \<Rightarrow> string list" where
  "readData [] = []"
| "readData (EvGetObject k opts ((bytes, cerr), None) # evs) = bytes # readData evs"
| "readData (EvGetObject k opts (r, Some e) # evs) = [] # readData evs"
| "readData (ev # evs) = readData evs"

text \<open>
  \<open>isAbort\<close> and \<open>isComplete\<close> recognise the requests of \<^verbatim>\<open>AbortMultipartUpload\<close> (the only
  DELETE) and of \<^verbatim>\<open>CompleteMultipartUpload\<close> (the POST whose parameters start with
  \<^verbatim>\<open>uploadId=\<close>). \<open>readOptions\<close> lists the options of every \<^verbatim>\<open>GetObject\<close> call of a
  history, in order; \<open>readData\<close> lists the bytes each of them brought into the file.
\<close>

fun afterParts ::
  "env \<Rightarrow> string \<Rightarrow> int \<Rightarrow> int \<Rightarrow> nat \<Rightarrow> int \<Rightarrow> Option list \<Rightarrow> world \<Rightarrow>
   (int \<times> Option list \<times> world) option" where
  "afterParts E objectKey objectSize partSize 0 i options w = Some (i, options, w)"
| "afterParts E objectKey objectSize partSize (Suc n) i options w =
     (if i < objectSize
      then
        (case downloadPart E objectKey objectSize partSize i options w of
           Inl (e, w1) \<Rightarrow> None
         | Inr (i1, options1, w1) \<Rightarrow> afterParts E objectKey objectSize partSize n i1 options1 w1)
      else None)"

text \<open>
  \<open>afterParts E objectKey objectSize partSize n i options w\<close> is the state of the loop
  after \<open>n\<close> complete iterations from \<open>(i, options, w)\<close>, when the loop gets that far.
\<close>

definition worldAfter :: "(error \<times> world) + (int \<times> Option list \<times> world) \<Rightarrow> world" where
  "worldAfter res = (case res of Inl (e, w) \<Rightarrow> w | Inr (i, options, w) \<Rightarrow> w)"

fun exactRead :: "event \<Rightarrow> bool" where
  "exactRead (EvGetObject k opts ((bytes, cerr), rerr)) =
     (case rev opts of
        RangeOpt s e # rest \<Rightarrow> int (length bytes) = e - s + 1
      | _ \<Rightarrow> False)"
| "exactRead ev = True"

text \<open>
  \<open>worldAfter\<close> is the world an iteration leaves, whichever way it ends. \<open>exactRead\<close>
  holds of a \<^verbatim>\<open>GetObject\<close> call that brought exactly as many bytes into the file as the
  range it asked for holds, the range being the last option of the call.
\<close>

definition loopIndex :: "int \<Rightarrow> nat \<Rightarrow> int" where
  "loopIndex partSize k = ((\<lambda>i. int64 (i + partSize)) ^^ k) 0"

definition byteRanges :: "int \<Rightarrow> int \<Rightarrow> (int \<times> int) list" where
  "byteRanges S C =
     map (\<lambda>k. (int k * C, min (int k * C + C - 1) (S - 1))) [0 ..< nat ((S + C - 1) div C)]"

text \<open>
  \<open>loopIndex partSize k\<close> is the loop variable \<open>i\<close> after \<open>k\<close> increments.
  \<open>byteRanges S C\<close> follows the spec's words for ByteRange: the ranges
  \<open>[i, min (i + C - 1) (S - 1)]\<close> for \<open>i = 0, C, 2C, ...\<close> below \<open>S\<close>.
\<close>

definition readEvent :: "env \<Rightarrow> string \<Rightarrow> int \<Rightarrow> int \<Rightarrow> int \<Rightarrow> Option list \<Rightarrow> world \<Rightarrow> event" where
  "readEvent E objectKey objectSize partSize i options w =
     EvGetObject objectKey (options @ [RangeOpt i (GetPartEnd i objectSize partSize)])
       (GetObject E (trace w) objectKey (options @ [RangeOpt i (GetPartEnd i objectSize partSize)]))"

definition rangeAt :: "int \<Rightarrow> int \<Rightarrow> nat \<Rightarrow> Option" where
  "rangeAt S C j = RangeOpt (loopIndex C j) (GetPartEnd (loopIndex C j) S C)"

definition spanAt :: "int \<Rightarrow> int \<Rightarrow> nat \<Rightarrow> Option" where
  "spanAt S C m = RangeOpt (int m * C) (min (int m * C + C - 1) (S - 1))"

text \<open>
  \<open>readEvent\<close> is the event that one iteration of the loop records. \<open>rangeAt S C j\<close> is
  the option the iteration after \<open>j\<close> increments appends; \<open>spanAt S C m\<close> is the option of
  the \<open>m\<close>-th range of \<open>byteRanges S C\<close>, counted from 0.
\<close>

definition quiet :: "event list \<Rightarrow> bool" where
  "quiet evs = (\<not> list_ex isAbort evs \<and> \<not> list_ex isComplete evs)"

subsection \<open>The library's sort.Sort\<close>

text \<open>
  \<^verbatim>\<open>sort.Sort\<close> belongs to Go's library, whose documentation promises that it sorts the
  data in ascending order as \<^verbatim>\<open>Less\<close> determines, and that it is not guaranteed to be
  stable. The environment's \<open>sort_Sort\<close> stands for it, and \<open>sort_Sort_contract\<close> is that
  promise for the parts of an upload: the result holds the same entries as often, and no
  entry comes before one that is less.
\<close>

definition sort_Sort_contract :: "env \<Rightarrow> bool" where
  "sort_Sort_contract E =
     (\<forall>parts. mset (sort_Sort E uploadParts_Less parts) = mset parts \<and>
        sorted_wrt (\<lambda>a b. \<not> uploadParts_Less b a) (sort_Sort E uploadParts_Less parts))"

text \<open>
  What \<^verbatim>\<open>sort.Sort\<close> does on a slice of at most 12 elements in the Go releases 1.6 to
  1.18 (\<^verbatim>\<open>quickSort\<close> in sort/sort.go, whose loop over larger slices is not entered): one
  pass that compares the elements six places apart and swaps them when the later one is
  less, then insertion sort by swaps of neighbours. \<open>swap\<close>, \<open>lt\<close> and the length are
  the \<^verbatim>\<open>Swap\<close>, \<^verbatim>\<open>Less\<close> and \<^verbatim>\<open>Len\<close> of \<^verbatim>\<open>sort.Interface\<close>. On a longer
  slice the library partitions first, which is not modelled; \<open>sortSmall\<close> runs its two
  passes there too, so that it sorts every slice, and is the library's routine on the
  short ones. It serves as one \<^verbatim>\<open>sort.Sort\<close> that keeps the contract.
\<close>

definition swap :: "'a list \<Rightarrow> nat \<Rightarrow> nat \<Rightarrow> 'a list" where
  "swap xs i j = xs[i := xs ! j, j := xs ! i]"

fun insertDown :: "('a \<Rightarrow> 'a \<Rightarrow> bool) \<Rightarrow> nat \<Rightarrow> nat \<Rightarrow> 'a list \<Rightarrow> 'a list" where
  "insertDown lt a j xs =
     (if j > a \<and> lt (xs ! j) (xs ! (j - 1))
      then insertDown lt a (j - 1) (swap xs j (j - 1))
      else xs)"

declare insertDown.simps [simp del]

definition insertionSort :: "('a \<Rightarrow> 'a \<Rightarrow> bool) \<Rightarrow> 'a list \<Rightarrow> nat \<Rightarrow> nat \<Rightarrow> 'a list" where
  "insertionSort lt xs a b = fold (\<lambda>i ys. insertDown lt a i ys) [a + 1 ..< b] xs"

definition gapPass :: "('a \<Rightarrow> 'a \<Rightarrow> bool) \<Rightarrow> 'a list \<Rightarrow> nat \<Rightarrow> nat \<Rightarrow> 'a list" where
  "gapPass lt xs a b =
     fold (\<lambda>i ys. if lt (ys ! i) (ys ! (i - 6)) then swap ys i (i - 6) else ys) [a + 6 ..< b] xs"

definition sortSmall :: "('a \<Rightarrow> 'a \<Rightarrow> bool) \<Rightarrow> 'a list \<Rightarrow> 'a list" where
  "sortSmall lt xs =
     (let n = length xs
      in if n > 1 then insertionSort lt (gapPass lt xs 0 n) 0 n else xs)"

fun sinkr :: "('a \<Rightarrow> 'a \<Rightarrow> bool) \<Rightarrow> 'a \<Rightarrow> 'a list \<Rightarrow> 'a list" where
  "sinkr lt x [] = [x]"
| "sinkr lt x (p # ps) = (if lt x p then p # sinkr lt x ps else x # p # ps)"

text \<open>
  \<open>sinkr lt x r\<close> is what the inner loop of the insertion sort makes of a prefix and the
  element \<open>x\<close> after it, both read from the right: \<open>x\<close> passes every neighbour it is less
  than, and stops at the first it is not.
\<close>

subsection \<open>A concrete environment\<close>

text \<open>
  A service and a file system to run the operations on: a local file of 256000 bytes
  split at 100 KiB, and a remote object of 250 bytes. The request whose parameters are
  \<open>bad\<close> fails, and so does every abort; the probe reports the length \<open>cl\<close>; a read whose
  range is in \<open>badRanges\<close> fails, every other read delivers the bytes of its range.
\<close>

definition demoChunks :: "FileChunk list" where
  "demoChunks =
     [\<lparr>Number = 1, Offset = 0, Size = 102400\<rparr>,
      \<lparr>Number = 2, Offset = 102400, Size = 102400\<rparr>,
      \<lparr>Number = 3, Offset = 204800, Size = 51200\<rparr>]"

definition demoObject :: string where
  "demoObject = replicate 100 (CHR ''a'') @ replicate 100 (CHR ''b'') @ replicate 50 (CHR ''c'')"

definition serveRange :: "string \<Rightarrow> Option list \<Rightarrow> string" where
  "serveRange obj opts =
     (case rev opts of
        RangeOpt s e # rest \<Rightarrow> take (nat (e - s + 1)) (drop (nat s) obj)
      | _ \<Rightarrow> obj)"

definition demoEnv :: "string \<Rightarrow> string \<Rightarrow> Option list \<Rightarrow> env" where
  "demoEnv bad cl badRanges =
     \<lparr>do_reply = (\<lambda>h req.
         if httpMethod req = ''DELETE''
         then (\<lparr>statusCode = 0, headers = (\<lambda>k. []), respBody = []\<rparr>, Some (errorString ''abort failed''))
         else if urlParams req = bad
         then (\<lparr>statusCode = 0, headers = (\<lambda>k. []), respBody = []\<rparr>, Some (errorString ''request failed''))
         else (\<lparr>statusCode = 200, headers = (\<lambda>k. if k = ''ETag'' then ''tag'' else []),
                respBody = ''u1''\<rparr>, None)),
      addContentType = (\<lambda>options objectKey. options),
      xmlUnmarshal_imur = (\<lambda>b. (\<lparr>Key = ''obj'', UploadID = b\<rparr>, None)),
      xmlUnmarshal_cmur = (\<lambda>b. (b, None)),
      xml_Marshal = (\<lambda>parts. (concat (map (\<lambda>p. Itoa (PartNumber p) @ ETag p) parts), None)),
      sort_Sort = sortSmall,
      checkRespCode = (\<lambda>code allowed.
         if code \<in> set allowed then None else Some (errorString ''unexpected status'')),
      os_Open = (\<lambda>h p. None),
      SplitFileByPartSize = (\<lambda>h p n. (demoChunks, None)),
      GetObjectDetailedMeta =
        (\<lambda>h k. ((\<lambda>n. if n = ''Content-Length'' then cl else []), None)),
      os_OpenFile = (\<lambda>h p. None),
      GetObject = (\<lambda>h k opts.
         if opts \<noteq> [] \<and> last opts \<in> set badRanges
         then (([], None), Some (errorString ''read failed''))
         else ((serveRange demoObject opts, None), None))\<rparr>"

definition world0 :: world where
  "world0 = \<lparr>trace = [], written = []\<rparr>"

section \<open>Facts about the model\<close>

subsection \<open>The history only grows\<close>

lemma bucket_do_eq:
  "bucket_do E req w = ((resp, err), w1) \<Longrightarrow>
     (resp, err) = do_reply E (trace w) req \<and> w1 = record_event (EvDo req (resp, err)) w"
  by (auto simp: bucket_do_def Let_def)

lemma trace_record_event [simp]: "trace (record_event ev w) = trace w @ [ev]"
  by (simp add: record_event_def)

lemma written_record_event [simp]: "written (record_event ev w) = written w"
  by (simp add: record_event_def)

lemma quiet_simps [simp]:
  "quiet []"
  "quiet (evs @ evs') = (quiet evs \<and> quiet evs')"
  "quiet (ev # evs) = (\<not> isAbort ev \<and> \<not> isComplete ev \<and> quiet evs)"
  by (auto simp: quiet_def)

lemma InitiateMultipartUpload_trace:
  assumes "InitiateMultipartUpload E objectKey options w = (r, w1)"
  shows "\<exists>evs. trace w1 = trace w @ evs \<and> quiet evs"
  using assms
  by (auto simp: InitiateMultipartUpload_def bucket_do_def Let_def split: option.splits prod.splits)

lemma UploadPartFromFile_trace:
  assumes "UploadPartFromFile E imur filePath startPosition partSize partNumber w = (r, w1)"
  shows "\<exists>evs. trace w1 = trace w @ evs \<and> quiet evs"
  using assms
  by (auto simp: UploadPartFromFile_def bucket_do_def Let_def split: option.splits prod.splits)

lemma uploadChunks_trace:
  "uploadChunks E imur filePath chunks parts w = (r, w1) \<Longrightarrow>
     \<exists>evs. trace w1 = trace w @ evs \<and> quiet evs"
proof (induction chunks arbitrary: parts w)
  case Nil
  then show ?case by simp
next
  case (Cons chunk chunks)
  obtain part err w2 where up:
    "UploadPartFromFile E imur filePath (Offset chunk) (Size chunk) (Number chunk) w = ((part, err), w2)"
    by (metis prod.exhaust)
  from UploadPartFromFile_trace [OF up] obtain evs where evs: "trace w2 = trace w @ evs" "quiet evs"
    by blast
  show ?case
  proof (cases err)
    case None
    with Cons.prems up have "uploadChunks E imur filePath chunks (parts @ [part]) w2 = (r, w1)"
      by simp
    from Cons.IH [OF this] obtain evs' where "trace w1 = trace w2 @ evs'" "quiet evs'"
      by blast
    with evs show ?thesis by auto
  next
    case (Some e)
    with Cons.prems up have "w1 = w2" by simp
    with evs show ?thesis by auto
  qed
qed

lemma uploadChunks_append:
  "uploadChunks E imur filePath pre parts w = ((parts1, None), w1) \<Longrightarrow>
   uploadChunks E imur filePath (pre @ rest) parts w = uploadChunks E imur filePath rest parts1 w1"
proof (induction pre arbitrary: parts w)
  case Nil
  then show ?case by simp
next
  case (Cons chunk pre)
  then show ?case
    by (auto split: prod.splits option.splits)
qed

lemma newEvents_append: "trace w1 = trace w @ evs \<Longrightarrow> newEvents w w1 = evs"
  by (simp add: newEvents_def)

subsection \<open>Running the concrete environment\<close>

lemma demo_simps:
  "do_reply (demoEnv bad cl br) = (\<lambda>h req.
         if httpMethod req = ''DELETE''
         then (\<lparr>statusCode = 0, headers = (\<lambda>k. []), respBody = []\<rparr>, Some (errorString ''abort failed''))
         else if urlParams req = bad
         then (\<lparr>statusCode = 0, headers = (\<lambda>k. []), respBody = []\<rparr>, Some (errorString ''request failed''))
         else (\<lparr>statusCode = 200, headers = (\<lambda>k. if k = ''ETag'' then ''tag'' else []),
                respBody = ''u1''\<rparr>, None))"
  "addContentType (demoEnv bad cl br) = (\<lambda>options objectKey. options)"
  "xmlUnmarshal_imur (demoEnv bad cl br) = (\<lambda>b. (\<lparr>Key = ''obj'', UploadID = b\<rparr>, None))"
  "xmlUnmarshal_cmur (demoEnv bad cl br) = (\<lambda>b. (b, None))"
  "xml_Marshal (demoEnv bad cl br) = (\<lambda>parts. (concat (map (\<lambda>p. Itoa (PartNumber p) @ ETag p) parts), None))"
  "sort_Sort (demoEnv bad cl br) = sortSmall"
  "os_Open (demoEnv bad cl br) = (\<lambda>h p. None)"
  "SplitFileByPartSize (demoEnv bad cl br) = (\<lambda>h p n. (demoChunks, None))"
  "GetObjectDetailedMeta (demoEnv bad cl br) =
     (\<lambda>h k. ((\<lambda>n. if n = ''Content-Length'' then cl else []), None))"
  "os_OpenFile (demoEnv bad cl br) = (\<lambda>h p. None)"
  "GetObject (demoEnv bad cl br) = (\<lambda>h k opts.
         if opts \<noteq> [] \<and> last opts \<in> set br
         then (([], None), Some (errorString ''read failed''))
         else ((serveRange demoObject opts, None), None))"
  by (simp_all add: demoEnv_def)

lemmas run_defs = UploadFile_def InitiateMultipartUpload_def UploadPartFromFile_def
  CompleteMultipartUpload_def AbortMultipartUpload_def bucket_do_def
  record_event_def world0_def demoChunks_def MinPartSize_def MaxPartSize_def Let_def
  Header_Get_def HTTPHeaderEtag_def newEvents_def

lemma Itoa_small [simp]: "Itoa 1 = ''1''" "Itoa 2 = ''2''" "Itoa 3 = ''3''"
  by (simp_all add: Itoa_def digits.simps)

lemma CompleteMultipartUpload_trace:
  assumes "CompleteMultipartUpload E imur parts w = (r, w1)"
  shows "\<exists>evs. trace w1 = trace w @ evs \<and> \<not> list_ex isAbort evs"
  using assms
  by (auto simp: CompleteMultipartUpload_def bucket_do_def Let_def split: option.splits prod.splits)

lemma AbortMultipartUpload_world:
  "AbortMultipartUpload E imur w = (aerr, w1) \<Longrightarrow> w1 =
     w\<lparr>trace := trace w @
        [EvDo \<lparr>httpMethod = ''DELETE'', objectName = Key imur,
                urlParams = ''uploadId='' @ UploadID imur,
                subResource = ''uploadId='' @ UploadID imur, reqOptions = [], reqData = NoBody\<rparr>
           (do_reply E (trace w)
              \<lparr>httpMethod = ''DELETE'', objectName = Key imur,
                urlParams = ''uploadId='' @ UploadID imur,
                subResource = ''uploadId='' @ UploadID imur, reqOptions = [],
                reqData = NoBody\<rparr>)]\<rparr>"
  by (auto simp: AbortMultipartUpload_def bucket_do_def record_event_def Let_def
      split: prod.splits option.splits)

lemma newEvents_snoc:
  "trace w1 = trace w @ evs \<Longrightarrow> newEvents w (w1\<lparr>trace := trace w1 @ [ev]\<rparr>) = evs @ [ev]"
  by (simp add: newEvents_def)

lemmas sortSmall_simps = sortSmall_def insertionSort_def gapPass_def insertDown.simps swap_def
  uploadParts_Less_def

subsection \<open>The loop of DownloadFile\<close>

lemma readOptions_append: "readOptions (xs @ ys) = readOptions xs @ readOptions ys"
  by (induction xs rule: readOptions.induct) simp_all

lemma readData_append: "readData (xs @ ys) = readData xs @ readData ys"
  by (induction xs rule: readData.induct) simp_all

lemma newEvents_self [simp]: "newEvents w w = []"
  by (simp add: newEvents_def)

lemma readEvent_simps [simp]:
  "readOptions [readEvent E k S C i os w] = [os @ [RangeOpt i (GetPartEnd i S C)]]"
  "length (readData [readEvent E k S C i os w]) = 1"
  apply (simp add: readEvent_def)
  apply (simp add: readEvent_def)
  apply (cases "GetObject E (trace w) k (os @ [RangeOpt i (GetPartEnd i S C)])")
  subgoal for r err
    by (cases err; cases r) simp_all
  done

lemma downloadPart_world:
  "trace (worldAfter (downloadPart E k S C i os w)) = trace w @ [readEvent E k S C i os w]"
  "written (worldAfter (downloadPart E k S C i os w)) =
     written w @ concat (readData [readEvent E k S C i os w])"
  by (auto simp: downloadPart_def worldAfter_def readEvent_def Let_def
      split: prod.splits option.splits)

lemma downloadPart_Inr:
  assumes "downloadPart E k S C i os w = Inr (i1, os1, w1)"
  shows "i1 = int64 (i + C)" "os1 = os @ [RangeOpt i (GetPartEnd i S C)]"
    "worldAfter (downloadPart E k S C i os w) = w1"
  using assms
  by (auto simp: downloadPart_def worldAfter_def Let_def split: prod.splits option.splits)

lemma downloadPart_Inl:
  assumes "downloadPart E k S C i os w = Inl (e, w1)"
  shows "worldAfter (downloadPart E k S C i os w) = w1"
  using assms by (simp add: worldAfter_def)

lemma afterParts_loop:
  "afterParts E k S C n i os w = Some (i1, os1, w1) \<Longrightarrow>
     downloadLoop E k S C i os w = downloadLoop E k S C i1 os1 w1"
proof (induction n arbitrary: i os w)
  case 0
  then show ?case by simp
next
  case (Suc n)
  from Suc.prems have lt: "i < S"
    by (simp split: if_splits)
  from Suc.prems lt obtain i2 os2 w2 where
    part: "downloadPart E k S C i os w = Inr (i2, os2, w2)"
    and rest: "afterParts E k S C n i2 os2 w2 = Some (i1, os1, w1)"
    by (auto split: sum.splits)
  have "downloadLoop E k S C i os w = downloadLoop E k S C i2 os2 w2"
    using lt part by (subst downloadLoop.simps) simp
  with Suc.IH [OF rest] show ?case by simp
qed

lemma loopIndex_Suc: "loopIndex C (Suc j) = int64 (loopIndex C j + C)"
  by (simp add: loopIndex_def)

lemma loopIndex_0 [simp]: "loopIndex C 0 = 0"
  by (simp add: loopIndex_def)

lemma upt_head: "[j ..< j + Suc n] = j # [Suc j ..< Suc j + n]"
  using upt_conv_Cons [of j "j + Suc n"] by simp

lemma afterParts_state:
  "afterParts E k S C n (loopIndex C j) os w = Some (i1, os1, w1) \<Longrightarrow>
     i1 = loopIndex C (j + n) \<and> os1 = os @ map (rangeAt S C) [j ..< j + n] \<and>
     (\<exists>evs. trace w1 = trace w @ evs \<and> length evs = n \<and> length (readOptions evs) = n \<and>
        length (readData evs) = n \<and> written w1 = written w @ concat (readData evs))"
proof (induction n arbitrary: j os w)
  case 0
  then show ?case by simp
next
  case (Suc n)
  let ?i = "loopIndex C j"
  let ?ev = "readEvent E k S C ?i os w"
  from Suc.prems have lt: "?i < S"
    by (simp split: if_splits)
  from Suc.prems lt obtain i2 os2 w2 where
    part: "downloadPart E k S C ?i os w = Inr (i2, os2, w2)"
    and rest0: "afterParts E k S C n i2 os2 w2 = Some (i1, os1, w1)"
    by (auto split: sum.splits)
  note st = downloadPart_Inr [OF part]
  have i2: "i2 = loopIndex C (Suc j)"
    using st(1) by (simp add: loopIndex_Suc)
  have rest: "afterParts E k S C n (loopIndex C (Suc j)) os2 w2 = Some (i1, os1, w1)"
    using rest0 unfolding i2 .
  from Suc.IH [OF rest]
  obtain evs where ih1: "i1 = loopIndex C (Suc j + n)"
    and ih2: "os1 = os2 @ map (rangeAt S C) [Suc j ..< Suc j + n]"
    and ih3: "trace w1 = trace w2 @ evs" "length evs = n" "length (readOptions evs) = n"
    "length (readData evs) = n" "written w1 = written w2 @ concat (readData evs)"
    by blast
  have tr: "trace w2 = trace w @ [?ev]"
    and wr: "written w2 = written w @ concat (readData [?ev])"
    using downloadPart_world [of E k S C ?i os w] st(3) by simp_all
  have os1: "os1 = os @ map (rangeAt S C) [j ..< j + Suc n]"
    unfolding upt_head ih2 st(2) by (simp add: rangeAt_def)
  have ro: "readOptions (?ev # evs) = readOptions [?ev] @ readOptions evs"
    using readOptions_append [of "[?ev]" evs] by simp
  have rd: "readData (?ev # evs) = readData [?ev] @ readData evs"
    using readData_append [of "[?ev]" evs] by simp
  have a: "trace w1 = trace w @ (?ev # evs)"
    using ih3(1) tr by simp
  have b: "length (?ev # evs) = Suc n"
    using ih3(2) by simp
  have c: "length (readOptions (?ev # evs)) = Suc n"
    unfolding ro using ih3(3) by simp
  have d: "length (readData (?ev # evs)) = Suc n"
    unfolding rd using ih3(4) by simp
  have e: "written w1 = written w @ concat (readData (?ev # evs))"
    unfolding rd using ih3(5) wr by simp
  have f: "i1 = loopIndex C (j + Suc n)"
    using ih1 by simp
  from a b c d e have "\<exists>evs. trace w1 = trace w @ evs \<and> length evs = Suc n \<and>
      length (readOptions evs) = Suc n \<and> length (readData evs) = Suc n \<and>
      written w1 = written w @ concat (readData evs)"
    by blast
  with f os1 show ?case by blast
qed

lemma DownloadFile_prelude:
  assumes size: "1 \<le> partSize" "partSize \<le> MaxPartSize"
    and meta: "GetObjectDetailedMeta E (trace w) objectKey = (meta, None)"
    and opened: "os_OpenFile E (trace w @ [EvMeta objectKey (meta, None)]) filePath = None"
  shows "DownloadFile E objectKey filePath partSize options w =
     downloadLoop E objectKey (fst (ParseInt (Header_Get meta HTTPHeaderContentLength))) partSize 0
       options (w\<lparr>trace := trace w @ [EvMeta objectKey (meta, None), EvOpenFile filePath None]\<rparr>)"
  using size
  by (simp add: DownloadFile_def meta opened record_event_def Let_def split: prod.splits)

lemma ParseInt_syntax_zero:
  "snd (ParseInt s) = Some (NumError f n ErrSyntax) \<Longrightarrow> fst (ParseInt s) = 0"
  by (auto simp: ParseInt_def Let_def split: if_splits prod.splits option.splits error.splits
      numErr.splits)

lemma int64_id: "- (2 ^ 63) \<le> x \<Longrightarrow> x < 2 ^ 63 \<Longrightarrow> int64 x = x"
  by (simp add: int64_def signed_take_bit_int_eq_self)

lemma chunk_count_less:
  fixes S C :: int
  assumes C: "1 \<le> C"
  shows "(j < nat ((S + C - 1) div C)) = (int j * C < S)"
proof -
  define q where "q = (S + C - 1) div C"
  have C0: "0 < C" using C by simp
  have lo: "q * C \<le> S + C - 1"
    unfolding q_def using C0 by (metis div_mult_mod_eq pos_mod_sign add.commute le_add_same_cancel1)
  have hi: "S + C - 1 < q * C + C"
    unfolding q_def using C0 by (metis div_mult_mod_eq pos_mod_bound add_less_cancel_left)
  show ?thesis
  proof
    assume "j < nat ((S + C - 1) div C)"
    then have "int j + 1 \<le> q" unfolding q_def by linarith
    then have "(int j + 1) * C \<le> q * C" using C0 by (simp add: mult_right_mono)
    with lo show "int j * C < S" by (simp add: algebra_simps)
  next
    assume a: "int j * C < S"
    have "int j < q"
    proof (rule ccontr)
      assume "\<not> int j < q"
      then have "q \<le> int j" by simp
      then have "q * C \<le> int j * C" using C0 by (simp add: mult_right_mono)
      with hi a show False by (simp add: algebra_simps)
    qed
    then show "j < nat ((S + C - 1) div C)" unfolding q_def by linarith
  qed
qed

lemma downloadPart_Inr_reply:
  assumes "downloadPart E k S C i os w = Inr (i1, os1, w1)"
  shows "\<exists>bytes. GetObject E (trace w) k (os @ [RangeOpt i (GetPartEnd i S C)]) = ((bytes, None), None)
     \<and> w1 = w\<lparr>trace := trace w @
                  [EvGetObject k (os @ [RangeOpt i (GetPartEnd i S C)]) ((bytes, None), None)],
               written := written w @ bytes\<rparr>"
  using assms
  by (auto simp: downloadPart_def record_event_def Let_def split: prod.splits option.splits)

lemma loop_ranges:
  fixes S C :: int
  assumes C: "1 \<le> C" and fits: "S + C \<le> 2 ^ 63"
  shows "j \<le> nat ((S + C - 1) div C) \<Longrightarrow>
    \<exists>r wf. downloadLoop E k S C (int j * C) os w = Some (r, wf) \<and>
      (r = None \<longrightarrow>
        (\<exists>evs. trace wf = trace w @ evs
           \<and> length evs = nat ((S + C - 1) div C) - j
           \<and> map last (readOptions evs) = map (spanAt S C) [j ..< nat ((S + C - 1) div C)]
           \<and> written wf = written w @ concat (readData evs)
           \<and> (list_all exactRead evs \<longrightarrow>
                int (length (concat (readData evs))) =
                  (if j < nat ((S + C - 1) div C) then S - int j * C else 0))))"
proof (induction "nat ((S + C - 1) div C) - j" arbitrary: j os w)
  case 0
  then have "\<not> j < nat ((S + C - 1) div C)" by simp
  then have ge: "\<not> int j * C < S"
    using chunk_count_less [OF C, of j S] by simp
  have "downloadLoop E k S C (int j * C) os w = Some (None, w)"
    using ge by (subst downloadLoop.simps) simp
  with 0 show ?case by simp
next
  case (Suc d)
  let ?n = "nat ((S + C - 1) div C)"
  let ?i = "int j * C"
  let ?opts = "os @ [RangeOpt ?i (GetPartEnd ?i S C)]"
  from Suc.hyps(2) have jn: "j < ?n" by simp
  then have lt: "?i < S"
    using chunk_count_less [OF C, of j S] by simp
  have unfold: "downloadLoop E k S C ?i os w =
      (case downloadPart E k S C ?i os w of
         Inl (e, w1) \<Rightarrow> Some (Some e, w1)
       | Inr (i1, os1, w1) \<Rightarrow> downloadLoop E k S C i1 os1 w1)"
    using lt by (subst downloadLoop.simps) simp
  show ?case
  proof (cases "downloadPart E k S C ?i os w")
    case (Inl a)
    then show ?thesis
      unfolding unfold by (cases a) simp
  next
    case (Inr b)
    obtain i1 os1 w1 where b: "b = (i1, os1, w1)"
      by (cases b) auto
    note part = Inr [unfolded b]
    from downloadPart_Inr [OF part] have i1: "i1 = int64 (?i + C)" and os1: "os1 = ?opts"
      by simp_all
    from downloadPart_Inr_reply [OF part] obtain bytes where
      reply: "GetObject E (trace w) k ?opts = ((bytes, None), None)"
      and w1: "w1 = w\<lparr>trace := trace w @ [EvGetObject k ?opts ((bytes, None), None)],
                         written := written w @ bytes\<rparr>"
      by blast
    have nonneg: "0 \<le> ?i" using C by simp
    have p: "(2::int) ^ 63 = 9223372036854775808" by simp
    have lo: "- (2 ^ 63) \<le> ?i + C" unfolding p using nonneg C by linarith
    have hi: "?i + C < 2 ^ 63" using lt fits unfolding p by linarith
    have "int64 (?i + C) = ?i + C"
      by (rule int64_id [OF lo hi])
    then have i1': "i1 = int (Suc j) * C"
      using i1 by (simp add: algebra_simps)
    have d: "d = ?n - Suc j" using Suc.hyps(2) by simp
    have le: "Suc j \<le> ?n" using jn by simp
    from Suc.hyps(1) [OF d le, of os1 w1]
    obtain r wf where run: "downloadLoop E k S C (int (Suc j) * C) os1 w1 = Some (r, wf)"
      and rest: "r = None \<longrightarrow>
        (\<exists>evs. trace wf = trace w1 @ evs
           \<and> length evs = ?n - Suc j
           \<and> map last (readOptions evs) = map (spanAt S C) [Suc j ..< ?n]
           \<and> written wf = written w1 @ concat (readData evs)
           \<and> (list_all exactRead evs \<longrightarrow>
                int (length (concat (readData evs))) =
                  (if Suc j < ?n then S - int (Suc j) * C else 0)))"
      by blast
    have whole: "downloadLoop E k S C ?i os w = Some (r, wf)"
      unfolding unfold part using run i1' by simp
    let ?ev = "EvGetObject k ?opts ((bytes, None), None)"
    have span: "last ?opts = spanAt S C j"
      by (simp add: spanAt_def GetPartEnd_def)
    have upt: "[j ..< ?n] = j # [Suc j ..< ?n]"
      using jn by (simp add: upt_conv_Cons)
    have "\<exists>evs. trace wf = trace w @ evs
           \<and> length evs = ?n - j
           \<and> map last (readOptions evs) = map (spanAt S C) [j ..< ?n]
           \<and> written wf = written w @ concat (readData evs)
           \<and> (list_all exactRead evs \<longrightarrow>
                int (length (concat (readData evs))) = (if j < ?n then S - ?i else 0))"
      if "r = None"
    proof -
      from rest that obtain evs where
        e1: "trace wf = trace w1 @ evs" and e2: "length evs = ?n - Suc j"
        and e3: "map last (readOptions evs) = map (spanAt S C) [Suc j ..< ?n]"
        and e4: "written wf = written w1 @ concat (readData evs)"
        and e5: "list_all exactRead evs \<longrightarrow>
                int (length (concat (readData evs))) =
                  (if Suc j < ?n then S - int (Suc j) * C else 0)"
        by blast
      have t: "trace wf = trace w @ (?ev # evs)"
        using e1 w1 by simp
      have l: "length (?ev # evs) = ?n - j"
        using e2 jn by simp
      have m: "map last (readOptions (?ev # evs)) = map (spanAt S C) [j ..< ?n]"
        unfolding upt using e3 span by simp
      have wr: "written wf = written w @ concat (readData (?ev # evs))"
        using e4 w1 by simp
      have ex: "int (length (concat (readData (?ev # evs)))) = S - ?i"
        if all: "list_all exactRead (?ev # evs)"
      proof -
        from all have len: "int (length bytes) = GetPartEnd ?i S C - ?i + 1"
          and others: "list_all exactRead evs"
          by simp_all
        from e5 others have tail: "int (length (concat (readData evs))) =
            (if Suc j < ?n then S - int (Suc j) * C else 0)"
          by simp
        show ?thesis
        proof (cases "Suc j < ?n")
          case True
          then have "int (Suc j) * C < S"
            using chunk_count_less [OF C, of "Suc j" S] by simp
          then have "GetPartEnd ?i S C = ?i + C - 1"
            by (simp add: GetPartEnd_def algebra_simps)
          with len tail True show ?thesis
            by (simp add: algebra_simps)
        next
          case False
          then have "\<not> int (Suc j) * C < S"
            using chunk_count_less [OF C, of "Suc j" S] by simp
          then have "GetPartEnd ?i S C = S - 1"
            by (simp add: GetPartEnd_def algebra_simps)
          with len tail False show ?thesis
            by simp
        qed
      qed
      from t l m wr ex jn show ?thesis
        by (intro exI [of _ "?ev # evs"]) simp
    qed
    with whole show ?thesis by blast
  qed
qed

lemmas download_defs = DownloadFile_def downloadPart_def downloadLoop.simps record_event_def
  world0_def MaxPartSize_def Let_def Header_Get_def HTTPHeaderContentLength_def GetPartEnd_def
  int64_def serveRange_def demoObject_def ParseInt_def ParseUint_def maxUint64_def

lemma ParseInt_250: "ParseInt ''250'' = (250, None)"
  by (simp add: ParseInt_def ParseUint_def maxUint64_def Let_def)

lemma ParseInt_12a: "ParseInt ''12a'' = (0, Some (NumError ''ParseInt'' ''12a'' ErrSyntax))"
  by (simp add: ParseInt_def ParseUint_def maxUint64_def Let_def)

lemma ParseInt_empty: "ParseInt [] = (0, Some (NumError ''ParseInt'' [] ErrSyntax))"
  by (simp add: ParseInt_def)

subsection \<open>The small-slice sort meets the contract of sort.Sort\<close>

lemma length_swap [simp]: "length (swap xs i j) = length xs"
  by (simp add: swap_def)

lemma mset_swap' [simp]: "i < length xs \<Longrightarrow> j < length xs \<Longrightarrow> mset (swap xs i j) = mset xs"
  unfolding swap_def by (simp add: mset_swap)

lemma swap_adjacent: "swap (ps @ p # x # ts) (Suc (length ps)) (length ps) = ps @ x # p # ts"
  by (simp add: swap_def list_update_append nth_append)

lemma insertDown_sinkr:
  "insertDown lt 0 (length pre) (pre @ x # ts) = rev (sinkr lt x (rev pre)) @ ts"
proof (induction pre arbitrary: ts rule: rev_induct)
  case Nil
  show ?case by (simp add: insertDown.simps)
next
  case (snoc p ps)
  show ?case
  proof (cases "lt x p")
    case True
    have "insertDown lt 0 (length (ps @ [p])) ((ps @ [p]) @ x # ts) =
        insertDown lt 0 (length ps) (swap (ps @ p # x # ts) (Suc (length ps)) (length ps))"
      using True by (subst insertDown.simps) (simp add: nth_append)
    also have "\<dots> = insertDown lt 0 (length ps) (ps @ x # p # ts)"
      by (simp only: swap_adjacent)
    also have "\<dots> = rev (sinkr lt x (rev ps)) @ p # ts"
      by (rule snoc.IH)
    finally show ?thesis using True by simp
  next
    case False
    have "insertDown lt 0 (length (ps @ [p])) ((ps @ [p]) @ x # ts) = (ps @ [p]) @ x # ts"
      using False by (subst insertDown.simps) (simp add: nth_append)
    then show ?thesis using False by simp
  qed
qed

lemma set_sinkr [simp]: "set (sinkr lt x r) = insert x (set r)"
  by (induction r) auto

lemma mset_sinkr [simp]: "mset (sinkr lt x r) = add_mset x (mset r)"
  by (induction r) auto

lemma length_sinkr [simp]: "length (sinkr lt x r) = Suc (length r)"
  by (induction r) auto

lemma sorted_sinkr:
  fixes f :: "'a \<Rightarrow> 'b::linorder"
  assumes lt: "\<And>a b. lt a b = (f a < f b)"
  shows "sorted (map f (rev r)) \<Longrightarrow> sorted (map f (rev (sinkr lt x r)))"
proof (induction r)
  case Nil
  show ?case by simp
next
  case (Cons p ps)
  from Cons.prems have s: "sorted (map f (rev ps))" and le: "\<forall>y \<in> set ps. f y \<le> f p"
    by (auto simp: sorted_append)
  show ?case
  proof (cases "lt x p")
    case True
    then have "f x \<le> f p" by (simp add: lt)
    with Cons.IH [OF s] le True show ?thesis
      by (auto simp: sorted_append)
  next
    case False
    then have "f p \<le> f x" by (simp add: lt)
    with s le False show ?thesis
      by (fastforce simp: sorted_append)
  qed
qed

lemma insertion_fold:
  fixes f :: "'a \<Rightarrow> 'b::linorder"
  assumes lt: "\<And>a b. lt a b = (f a < f b)"
  shows "sorted (map f pre) \<Longrightarrow>
    sorted (map f (fold (\<lambda>i ys. insertDown lt 0 i ys) [length pre ..< length pre + length rest] (pre @ rest)))
    \<and> mset (fold (\<lambda>i ys. insertDown lt 0 i ys) [length pre ..< length pre + length rest] (pre @ rest)) =
        mset (pre @ rest)"
proof (induction rest arbitrary: pre)
  case Nil
  then show ?case by simp
next
  case (Cons x ts)
  let ?pre = "rev (sinkr lt x (rev pre))"
  have "[length pre ..< length pre + Suc (length ts)] =
      length pre # [Suc (length pre) ..< Suc (length pre) + length ts]"
    using upt_conv_Cons [of "length pre" "length pre + Suc (length ts)"] by simp
  then have upt: "[length pre ..< length pre + length (x # ts)] =
      length pre # [length ?pre ..< length ?pre + length ts]"
    by simp
  have s: "sorted (map f ?pre)"
    using sorted_sinkr [OF lt, where r = "rev pre" and x = x] Cons.prems by simp
  have step: "insertDown lt 0 (length pre) (pre @ x # ts) = ?pre @ ts"
    by (rule insertDown_sinkr)
  from Cons.IH [OF s] show ?case
    unfolding upt by (simp add: step)
qed

lemma insertionSort_sorts:
  fixes f :: "'a \<Rightarrow> 'b::linorder"
  assumes lt: "\<And>a b. lt a b = (f a < f b)"
  shows "sorted (map f (insertionSort lt xs 0 (length xs)))
     \<and> mset (insertionSort lt xs 0 (length xs)) = mset xs"
proof (cases xs)
  case Nil
  then show ?thesis by (simp add: insertionSort_def)
next
  case (Cons x rest)
  have "sorted (map f [x])" by simp
  from insertion_fold [OF lt this, of rest] show ?thesis
    by (simp add: insertionSort_def Cons)
qed

lemma gap_fold:
  "\<forall>i \<in> set idx. i < length xs \<Longrightarrow>
   length (fold (\<lambda>i ys. if lt (ys ! i) (ys ! (i - 6)) then swap ys i (i - 6) else ys) idx xs) = length xs
   \<and> mset (fold (\<lambda>i ys. if lt (ys ! i) (ys ! (i - 6)) then swap ys i (i - 6) else ys) idx xs) = mset xs"
proof (induction idx arbitrary: xs)
  case Nil
  show ?case by simp
next
  case (Cons i idx)
  let ?ys = "if lt (xs ! i) (xs ! (i - 6)) then swap xs i (i - 6) else xs"
  from Cons.prems have i: "i < length xs" and rest: "\<forall>j \<in> set idx. j < length ?ys"
    by simp_all
  have "length ?ys = length xs" "mset ?ys = mset xs"
    using i by simp_all
  with Cons.IH [OF rest] show ?case by simp
qed

lemma gapPass_keeps: "length (gapPass lt xs 0 (length xs)) = length xs \<and> mset (gapPass lt xs 0 (length xs)) = mset xs"
  unfolding gapPass_def by (rule gap_fold) simp

lemma sortSmall_sorts:
  fixes f :: "'a \<Rightarrow> 'b::linorder"
  assumes lt: "\<And>a b. lt a b = (f a < f b)"
  shows "sorted (map f (sortSmall lt xs)) \<and> mset (sortSmall lt xs) = mset xs"
proof (cases "length xs > 1")
  case True
  let ?g = "gapPass lt xs 0 (length xs)"
  from insertionSort_sorts [OF lt, where xs = ?g] gapPass_keeps [of lt xs] True
  show ?thesis by (simp add: sortSmall_def Let_def)
next
  case False
  then have "xs = [] \<or> (\<exists>x. xs = [x])"
    by (cases xs) auto
  with False show ?thesis by (auto simp: sortSmall_def)
qed

lemma sorted_wrt_Less: "sorted_wrt (\<lambda>a b. \<not> uploadParts_Less b a) ps = sorted (map PartNumber ps)"
  by (simp add: uploadParts_Less_def sorted_map not_less sorted_wrt_iff_nth_less sorted_iff_nth_mono_less)

lemma demoEnv_contract: "sort_Sort_contract (demoEnv bad cl br)"
  unfolding sort_Sort_contract_def sorted_wrt_Less
  using sortSmall_sorts [of uploadParts_Less PartNumber]
  by (simp add: demoEnv_def uploadParts_Less_def)

lemma contract_sortParts:
  assumes "sort_Sort_contract E"
  shows "mset (sortParts E parts) = mset parts" "sorted (map PartNumber (sortParts E parts))"
  using assms unfolding sort_Sort_contract_def sortParts_def sorted_wrt_Less by simp_all


section \<open>The claims\<close>

subsection \<open>UploadFile: a part fails\<close>

text \<open>
  Claim C1. Take a run of \<^verbatim>\<open>UploadFile\<close> with a valid part size in which the file was
  split and the session opened with the handle \<open>imur\<close>, the transfers of the chunks \<open>pre\<close>
  succeeded, and the transfer of the next chunk failed with the error \<open>e\<close> (whether at
  \<^verbatim>\<open>os.Open\<close> or at the request), leaving the world \<open>w4\<close>. Then \<^verbatim>\<open>UploadFile\<close> returns
  \<open>e\<close>, whatever the abort answers, and the history it leaves is the one of \<open>w4\<close> followed
  by a single event: the DELETE request for the object \<open>Key imur\<close> with the parameters
  \<^verbatim>\<open>uploadId=\<close> and \<open>UploadID imur\<close>. Among all the events of the run that request is the
  only abort, and none is a completion request. No chunk of \<open>rest\<close> is transferred.
\<close>

theorem UploadFile_part_failure:
  assumes size: "MinPartSize \<le> partSize" "partSize \<le> MaxPartSize"
    and split: "SplitFileByPartSize E (trace w) filePath partSize = (pre @ chunk # rest, None)"
    and init: "InitiateMultipartUpload E objectKey options
                 (record_event (EvSplit filePath partSize (pre @ chunk # rest, None)) w) =
               ((imur, None), w2)"
    and before: "uploadChunks E imur filePath pre [] w2 = ((parts, None), w3)"
    and failed: "UploadPartFromFile E imur filePath (Offset chunk) (Size chunk) (Number chunk) w3 =
               ((part, Some e), w4)"
    and abort: "abort =
       EvDo \<lparr>httpMethod = ''DELETE'', objectName = Key imur,
              urlParams = ''uploadId='' @ UploadID imur,
              subResource = ''uploadId='' @ UploadID imur, reqOptions = [], reqData = NoBody\<rparr>
         (do_reply E (trace w4)
            \<lparr>httpMethod = ''DELETE'', objectName = Key imur,
              urlParams = ''uploadId='' @ UploadID imur,
              subResource = ''uploadId='' @ UploadID imur, reqOptions = [], reqData = NoBody\<rparr>)"
  shows "UploadFile E objectKey filePath partSize options w =
           (Some e, w4\<lparr>trace := trace w4 @ [abort]\<rparr>)
         \<and> trace w4 = trace w @ newEvents w w4
         \<and> filter isAbort (newEvents w (snd (UploadFile E objectKey filePath partSize options w))) =
             [abort]
         \<and> filter isComplete (newEvents w (snd (UploadFile E objectKey filePath partSize options w))) =
             []"
proof -
  let ?w1 = "record_event (EvSplit filePath partSize (pre @ chunk # rest, None)) w"
  have loop: "uploadChunks E imur filePath (pre @ chunk # rest) [] w2 = ((parts, Some e), w4)"
    using uploadChunks_append [OF before, of "chunk # rest"] failed by simp
  obtain aerr w5 where ab5: "AbortMultipartUpload E imur w4 = (aerr, w5)"
    by (cases "AbortMultipartUpload E imur w4")
  have ab: "AbortMultipartUpload E imur w4 = (aerr, w4\<lparr>trace := trace w4 @ [abort]\<rparr>)"
    using AbortMultipartUpload_world [OF ab5] ab5 unfolding abort by simp
  have result: "UploadFile E objectKey filePath partSize options w =
      (Some e, w4\<lparr>trace := trace w4 @ [abort]\<rparr>)"
    using size by (simp add: UploadFile_def split init loop) (simp add: ab)
  obtain evs1 where evs1: "trace w2 = trace ?w1 @ evs1" "quiet evs1"
    using InitiateMultipartUpload_trace [OF init] by blast
  obtain evs2 where evs2: "trace w3 = trace w2 @ evs2" "quiet evs2"
    using uploadChunks_trace [OF before] by blast
  obtain evs3 where evs3: "trace w4 = trace w3 @ evs3" "quiet evs3"
    using UploadPartFromFile_trace [OF failed] by blast
  have tr: "trace w4 = trace w @ (EvSplit filePath partSize (pre @ chunk # rest, None) # evs1 @ evs2 @ evs3)"
    using evs1 evs2 evs3 by simp
  have ne: "newEvents w w4 = EvSplit filePath partSize (pre @ chunk # rest, None) # evs1 @ evs2 @ evs3"
    by (rule newEvents_append [OF tr])
  have q: "quiet (newEvents w w4)"
    unfolding ne using evs1 evs2 evs3 by simp
  have tr4: "trace w4 = trace w @ newEvents w w4"
    using tr ne by simp
  have fin: "newEvents w (snd (UploadFile E objectKey filePath partSize options w)) =
      newEvents w w4 @ [abort]"
    using result newEvents_snoc [OF tr4] by simp
  have "filter isAbort (newEvents w w4) = []" "filter isComplete (newEvents w w4) = []"
    using q by (simp_all add: quiet_def list_ex_iff filter_empty_conv)
  moreover have "isAbort abort" "\<not> isComplete abort"
    by (simp_all add: abort)
  ultimately show ?thesis
    using result tr4 fin by simp
qed

text \<open>
  The run where the request for part 2 of three fails, and the abort fails too: the error
  returned is the one of part 2, and the abort is the last of seven events.
\<close>

theorem UploadFile_part_failure_witness:
  "UploadFile (demoEnv ''partNumber=2&uploadId=u1'' ''250'' []) ''obj'' ''file'' 102400 [] world0 =
     (Some (errorString ''request failed''),
      \<lparr>trace =
         [EvSplit ''file'' 102400 (demoChunks, None),
          EvDo \<lparr>httpMethod = ''POST'', objectName = ''obj'', urlParams = ''uploads'',
                subResource = ''uploads'', reqOptions = [], reqData = NoBody\<rparr>
            (\<lparr>statusCode = 200, headers = (\<lambda>k. if k = ''ETag'' then ''tag'' else []),
               respBody = ''u1''\<rparr>, None),
          EvOpen ''file'' None,
          EvDo \<lparr>httpMethod = ''PUT'', objectName = ''obj'', urlParams = ''partNumber=1&uploadId=u1'',
                subResource = ''partNumber=1&uploadId=u1'', reqOptions = [],
                reqData = LimitedFile ''file'' 0 102400\<rparr>
            (\<lparr>statusCode = 200, headers = (\<lambda>k. if k = ''ETag'' then ''tag'' else []),
               respBody = ''u1''\<rparr>, None),
          EvOpen ''file'' None,
          EvDo \<lparr>httpMethod = ''PUT'', objectName = ''obj'', urlParams = ''partNumber=2&uploadId=u1'',
                subResource = ''partNumber=2&uploadId=u1'', reqOptions = [],
                reqData = LimitedFile ''file'' 102400 102400\<rparr>
            (\<lparr>statusCode = 0, headers = (\<lambda>k. []), respBody = []\<rparr>,
             Some (errorString ''request failed'')),
          EvDo \<lparr>httpMethod = ''DELETE'', objectName = ''obj'', urlParams = ''uploadId=u1'',
                subResource = ''uploadId=u1'', reqOptions = [], reqData = NoBody\<rparr>
            (\<lparr>statusCode = 0, headers = (\<lambda>k. []), respBody = []\<rparr>,
             Some (errorString ''abort failed''))],
       written = []\<rparr>)"
proof -
  let ?E = "demoEnv ''partNumber=2&uploadId=u1'' ''250'' []"
  let ?c1 = "\<lparr>Number = 1, Offset = 0, Size = 102400\<rparr>"
  let ?c2 = "\<lparr>Number = 2, Offset = 102400, Size = 102400\<rparr>"
  let ?c3 = "\<lparr>Number = 3, Offset = 204800, Size = 51200\<rparr>"
  let ?imur = "\<lparr>Key = ''obj'', UploadID = ''u1''\<rparr>"
  let ?w1 = "record_event (EvSplit ''file'' 102400 ([?c1] @ ?c2 # [?c3], None)) world0"
  let ?I = "InitiateMultipartUpload ?E ''obj'' [] ?w1"
  let ?U = "uploadChunks ?E ?imur ''file'' [?c1] [] (snd ?I)"
  let ?F = "UploadPartFromFile ?E ?imur ''file'' (Offset ?c2) (Size ?c2) (Number ?c2) (snd ?U)"
  have size: "MinPartSize \<le> 102400" "102400 \<le> MaxPartSize"
    by (simp_all add: MinPartSize_def MaxPartSize_def)
  have split: "SplitFileByPartSize ?E (trace world0) ''file'' 102400 = ([?c1] @ ?c2 # [?c3], None)"
    by (simp add: demo_simps demoChunks_def)
  have init: "?I = ((?imur, None), snd ?I)"
    by (simp add: demo_simps run_defs)
  have before: "?U = ((fst (fst ?U), None), snd ?U)"
    by (simp add: demo_simps run_defs)
  have failed: "?F = ((fst (fst ?F), Some (errorString ''request failed'')), snd ?F)"
    by (simp add: demo_simps run_defs)
  from UploadFile_part_failure [OF size split init before failed refl]
  have "UploadFile ?E ''obj'' ''file'' 102400 [] world0 =
     (Some (errorString ''request failed''),
      (snd ?F)\<lparr>trace := trace (snd ?F) @
        [EvDo \<lparr>httpMethod = ''DELETE'', objectName = Key ?imur,
                urlParams = ''uploadId='' @ UploadID ?imur,
                subResource = ''uploadId='' @ UploadID ?imur, reqOptions = [], reqData = NoBody\<rparr>
           (do_reply ?E (trace (snd ?F))
              \<lparr>httpMethod = ''DELETE'', objectName = Key ?imur,
                urlParams = ''uploadId='' @ UploadID ?imur,
                subResource = ''uploadId='' @ UploadID ?imur, reqOptions = [],
                reqData = NoBody\<rparr>)]\<rparr>)"
    by (rule conjunct1)
  then show ?thesis
    by (simp add: demo_simps run_defs)
qed

subsection \<open>UploadFile: the completion fails\<close>

text \<open>
  Claim C2. Take a run of \<^verbatim>\<open>UploadFile\<close> with a valid part size in which the session was
  opened with the handle \<open>imur\<close>, every chunk was transferred, and
  \<^verbatim>\<open>CompleteMultipartUpload\<close> then failed with the error \<open>e\<close> (at the marshalling, at the
  request or at the decoding of the answer), leaving the world \<open>w4\<close>. Then \<^verbatim>\<open>UploadFile\<close>
  returns \<open>e\<close>, whatever the abort answers, and the history it leaves is the one of \<open>w4\<close>
  followed by a single event: the DELETE request for the object \<open>Key imur\<close> with the
  parameters \<^verbatim>\<open>uploadId=\<close> and \<open>UploadID imur\<close>. That request is the only abort among the
  events of the run.
\<close>

theorem UploadFile_complete_failure:
  assumes size: "MinPartSize \<le> partSize" "partSize \<le> MaxPartSize"
    and split: "SplitFileByPartSize E (trace w) filePath partSize = (chunks, None)"
    and init: "InitiateMultipartUpload E objectKey options
                 (record_event (EvSplit filePath partSize (chunks, None)) w) =
               ((imur, None), w2)"
    and uploads: "uploadChunks E imur filePath chunks [] w2 = ((parts, None), w3)"
    and complete: "CompleteMultipartUpload E imur parts w3 = ((out, Some e), w4)"
    and abort: "abort =
       EvDo \<lparr>httpMethod = ''DELETE'', objectName = Key imur,
              urlParams = ''uploadId='' @ UploadID imur,
              subResource = ''uploadId='' @ UploadID imur, reqOptions = [], reqData = NoBody\<rparr>
         (do_reply E (trace w4)
            \<lparr>httpMethod = ''DELETE'', objectName = Key imur,
              urlParams = ''uploadId='' @ UploadID imur,
              subResource = ''uploadId='' @ UploadID imur, reqOptions = [], reqData = NoBody\<rparr>)"
  shows "UploadFile E objectKey filePath partSize options w =
           (Some e, w4\<lparr>trace := trace w4 @ [abort]\<rparr>)
         \<and> trace w4 = trace w @ newEvents w w4
         \<and> filter isAbort (newEvents w (snd (UploadFile E objectKey filePath partSize options w))) =
             [abort]"
proof -
  let ?w1 = "record_event (EvSplit filePath partSize (chunks, None)) w"
  obtain aerr w5 where ab5: "AbortMultipartUpload E imur w4 = (aerr, w5)"
    by (cases "AbortMultipartUpload E imur w4")
  have ab: "AbortMultipartUpload E imur w4 = (aerr, w4\<lparr>trace := trace w4 @ [abort]\<rparr>)"
    using AbortMultipartUpload_world [OF ab5] ab5 unfolding abort by simp
  have result: "UploadFile E objectKey filePath partSize options w =
      (Some e, w4\<lparr>trace := trace w4 @ [abort]\<rparr>)"
    using size by (simp add: UploadFile_def split init uploads complete) (simp add: ab)
  obtain evs1 where evs1: "trace w2 = trace ?w1 @ evs1" "quiet evs1"
    using InitiateMultipartUpload_trace [OF init] by blast
  obtain evs2 where evs2: "trace w3 = trace w2 @ evs2" "quiet evs2"
    using uploadChunks_trace [OF uploads] by blast
  obtain evs3 where evs3: "trace w4 = trace w3 @ evs3" "\<not> list_ex isAbort evs3"
    using CompleteMultipartUpload_trace [OF complete] by blast
  have tr: "trace w4 = trace w @ (EvSplit filePath partSize (chunks, None) # evs1 @ evs2 @ evs3)"
    using evs1 evs2 evs3 by simp
  have ne: "newEvents w w4 = EvSplit filePath partSize (chunks, None) # evs1 @ evs2 @ evs3"
    by (rule newEvents_append [OF tr])
  have na: "\<not> list_ex isAbort (newEvents w w4)"
    unfolding ne using evs1 evs2 evs3 by (simp add: quiet_def)
  have tr4: "trace w4 = trace w @ newEvents w w4"
    using tr ne by simp
  have fin: "newEvents w (snd (UploadFile E objectKey filePath partSize options w)) =
      newEvents w w4 @ [abort]"
    using result newEvents_snoc [OF tr4] by simp
  have "filter isAbort (newEvents w w4) = []"
    using na by (simp add: list_ex_iff filter_empty_conv)
  moreover have "isAbort abort"
    by (simp add: abort)
  ultimately show ?thesis
    using result tr4 fin by simp
qed

text \<open>
  The run where the three parts succeed, the completion request fails and the abort fails
  too: of the ten events the ninth is the completion request and the tenth, the last, the
  abort of the same session; the error returned is the completion's.
\<close>

theorem UploadFile_complete_failure_witness:
  "fst (UploadFile (demoEnv ''uploadId=u1'' ''250'' []) ''obj'' ''file'' 102400 [] world0) =
     Some (errorString ''request failed'')
   \<and> map isAbort (trace (snd (UploadFile (demoEnv ''uploadId=u1'' ''250'' []) ''obj'' ''file'' 102400 [] world0))) =
     [False, False, False, False, False, False, False, False, False, True]
   \<and> map isComplete (trace (snd (UploadFile (demoEnv ''uploadId=u1'' ''250'' []) ''obj'' ''file'' 102400 [] world0))) =
     [False, False, False, False, False, False, False, False, True, False]
   \<and> drop 8 (trace (snd (UploadFile (demoEnv ''uploadId=u1'' ''250'' []) ''obj'' ''file'' 102400 [] world0))) =
     [EvDo \<lparr>httpMethod = ''POST'', objectName = ''obj'', urlParams = ''uploadId=u1'',
             subResource = ''uploadId=u1'', reqOptions = [], reqData = Buffer ''1tag2tag3tag''\<rparr>
        (\<lparr>statusCode = 0, headers = (\<lambda>k. []), respBody = []\<rparr>,
         Some (errorString ''request failed'')),
      EvDo \<lparr>httpMethod = ''DELETE'', objectName = ''obj'', urlParams = ''uploadId=u1'',
             subResource = ''uploadId=u1'', reqOptions = [], reqData = NoBody\<rparr>
        (\<lparr>statusCode = 0, headers = (\<lambda>k. []), respBody = []\<rparr>,
         Some (errorString ''abort failed''))]"
proof -
  let ?E = "demoEnv ''uploadId=u1'' ''250'' []"
  let ?imur = "\<lparr>Key = ''obj'', UploadID = ''u1''\<rparr>"
  let ?w1 = "record_event (EvSplit ''file'' 102400 (demoChunks, None)) world0"
  let ?I = "InitiateMultipartUpload ?E ''obj'' [] ?w1"
  let ?U = "uploadChunks ?E ?imur ''file'' demoChunks [] (snd ?I)"
  let ?C = "CompleteMultipartUpload ?E ?imur (fst (fst ?U)) (snd ?U)"
  have size: "MinPartSize \<le> 102400" "102400 \<le> MaxPartSize"
    by (simp_all add: MinPartSize_def MaxPartSize_def)
  have split: "SplitFileByPartSize ?E (trace world0) ''file'' 102400 = (demoChunks, None)"
    by (simp add: demo_simps)
  have init: "?I = ((?imur, None), snd ?I)"
    by (simp add: demo_simps run_defs)
  have uploads: "?U = ((fst (fst ?U), None), snd ?U)"
    by (simp add: demo_simps run_defs)
  have complete: "?C = ((fst (fst ?C), Some (errorString ''request failed'')), snd ?C)"
    by (simp add: demo_simps run_defs sortParts_def sortSmall_simps)
  from UploadFile_complete_failure [OF size split init uploads complete refl]
  have "UploadFile ?E ''obj'' ''file'' 102400 [] world0 =
     (Some (errorString ''request failed''),
      (snd ?C)\<lparr>trace := trace (snd ?C) @
        [EvDo \<lparr>httpMethod = ''DELETE'', objectName = Key ?imur,
                urlParams = ''uploadId='' @ UploadID ?imur,
                subResource = ''uploadId='' @ UploadID ?imur, reqOptions = [], reqData = NoBody\<rparr>
           (do_reply ?E (trace (snd ?C))
              \<lparr>httpMethod = ''DELETE'', objectName = Key ?imur,
                urlParams = ''uploadId='' @ UploadID ?imur,
                subResource = ''uploadId='' @ UploadID ?imur, reqOptions = [],
                reqData = NoBody\<rparr>)]\<rparr>)"
    by (rule conjunct1)
  then show ?thesis
    by (simp add: demo_simps run_defs sortParts_def sortSmall_simps)
qed

subsection \<open>UploadFile: the part size is checked first\<close>

text \<open>
  Claim C5. With a part size below \<open>MinPartSize\<close> or above \<open>MaxPartSize\<close> (5 GiB),
  \<^verbatim>\<open>UploadFile\<close> returns the error of the size check and leaves the world as it was: the
  history gains no event, so no file is read, no session opened, no part uploaded, and
  neither a completion nor an abort is requested.
\<close>

theorem UploadFile_invalid_partSize:
  assumes "partSize < MinPartSize \<or> partSize > MaxPartSize"
  shows "UploadFile E objectKey filePath partSize options w =
           (Some (errorString ''oss: part size invalid range (1024KB, 5GB]''), w)"
  using assms by (simp add: UploadFile_def)

text \<open>
  One byte below the minimum and one byte above the maximum are refused with no event;
  the bounds themselves pass the check.
\<close>

theorem UploadFile_invalid_partSize_witness:
  "UploadFile (demoEnv [] ''250'' []) ''obj'' ''file'' 102399 [] world0 =
     (Some (errorString ''oss: part size invalid range (1024KB, 5GB]''), world0)
   \<and> UploadFile (demoEnv [] ''250'' []) ''obj'' ''file'' 5368709121 [] world0 =
     (Some (errorString ''oss: part size invalid range (1024KB, 5GB]''), world0)
   \<and> fst (UploadFile (demoEnv [] ''250'' []) ''obj'' ''file'' 102400 [] world0) = None
   \<and> fst (UploadFile (demoEnv [] ''250'' []) ''obj'' ''file'' 5368709120 [] world0) = None"
proof -
  have a: "(102399::int) < MinPartSize \<or> 102399 > MaxPartSize"
    by (simp add: MinPartSize_def)
  have b: "(5368709121::int) < MinPartSize \<or> 5368709121 > MaxPartSize"
    by (simp add: MaxPartSize_def)
  show ?thesis
    using UploadFile_invalid_partSize [OF a] UploadFile_invalid_partSize [OF b]
    by (simp add: demo_simps run_defs)
qed

subsection \<open>CompleteMultipartUpload: the order of the parts\<close>

text \<open>
  Claim C3 says that the parts are put in a stable order before the completion request:
  ascending by part number, nothing dropped or merged, and entries with the same part
  number kept in the order they were submitted. The code orders them with
  \<^verbatim>\<open>sort.Sort\<close>, which Go's library documents as not guaranteed to be stable (the stable
  routine is \<^verbatim>\<open>sort.Stable\<close>). On the slice below, of seven parts, the \<^verbatim>\<open>sort.Sort\<close> of
  the Go releases 1.6 to 1.18 first swaps the parts at the places 0 and 6, because part 1 is
  less than part 2, and the insertion sort that follows moves the first part numbered 2,
  now last, down until its neighbour is not greater: it stops behind the second part
  numbered 2. The order of submission, which \<open>sort_key\<close> keeps, is the other one. (Which
  slices come out reordered depends on the release: the later ones sort so short a slice by
  insertion alone. No release promises the order of equal elements.)
\<close>

theorem sortParts_not_stable:
  "sortParts (demoEnv [] [] [])
     [\<lparr>PartNumber = 2, ETag = ''a''\<rparr>, \<lparr>PartNumber = 2, ETag = ''b''\<rparr>,
      \<lparr>PartNumber = 3, ETag = ''c''\<rparr>, \<lparr>PartNumber = 4, ETag = ''d''\<rparr>,
      \<lparr>PartNumber = 5, ETag = ''e''\<rparr>, \<lparr>PartNumber = 6, ETag = ''f''\<rparr>,
      \<lparr>PartNumber = 1, ETag = ''g''\<rparr>] =
     [\<lparr>PartNumber = 1, ETag = ''g''\<rparr>, \<lparr>PartNumber = 2, ETag = ''b''\<rparr>,
      \<lparr>PartNumber = 2, ETag = ''a''\<rparr>, \<lparr>PartNumber = 3, ETag = ''c''\<rparr>,
      \<lparr>PartNumber = 4, ETag = ''d''\<rparr>, \<lparr>PartNumber = 5, ETag = ''e''\<rparr>,
      \<lparr>PartNumber = 6, ETag = ''f''\<rparr>]
   \<and> sort_key PartNumber
     [\<lparr>PartNumber = 2, ETag = ''a''\<rparr>, \<lparr>PartNumber = 2, ETag = ''b''\<rparr>,
      \<lparr>PartNumber = 3, ETag = ''c''\<rparr>, \<lparr>PartNumber = 4, ETag = ''d''\<rparr>,
      \<lparr>PartNumber = 5, ETag = ''e''\<rparr>, \<lparr>PartNumber = 6, ETag = ''f''\<rparr>,
      \<lparr>PartNumber = 1, ETag = ''g''\<rparr>] =
     [\<lparr>PartNumber = 1, ETag = ''g''\<rparr>, \<lparr>PartNumber = 2, ETag = ''a''\<rparr>,
      \<lparr>PartNumber = 2, ETag = ''b''\<rparr>, \<lparr>PartNumber = 3, ETag = ''c''\<rparr>,
      \<lparr>PartNumber = 4, ETag = ''d''\<rparr>, \<lparr>PartNumber = 5, ETag = ''e''\<rparr>,
      \<lparr>PartNumber = 6, ETag = ''f''\<rparr>]"
  by (simp add: sortParts_def demo_simps sortSmall_simps upt_rec)

text \<open>
  Claim C3, without the stability: for every \<^verbatim>\<open>sort.Sort\<close> that keeps its documented
  promise, the list handed to the marshaller holds every submitted part as often as it was
  submitted, so none is dropped and none merged, and is ascending by part number; and when
  the marshalling succeeds, the one request \<^verbatim>\<open>CompleteMultipartUpload\<close> issues is the POST
  for the session whose body is the marshalling of that list. The order among parts of
  the same number is left to the library.
\<close>

theorem CompleteMultipartUpload_order:
  assumes contract: "sort_Sort_contract E"
  shows "mset (sortParts E parts) = mset parts
       \<and> length (sortParts E parts) = length parts
       \<and> sorted (map PartNumber (sortParts E parts))
       \<and> (\<forall>bs. xml_Marshal E (sortParts E parts) = (bs, None) \<longrightarrow>
            trace (snd (CompleteMultipartUpload E imur parts w)) =
              trace w @
              [EvDo \<lparr>httpMethod = ''POST'', objectName = Key imur,
                      urlParams = ''uploadId='' @ UploadID imur,
                      subResource = ''uploadId='' @ UploadID imur, reqOptions = [],
                      reqData = Buffer bs\<rparr>
                 (do_reply E (trace w)
                    \<lparr>httpMethod = ''POST'', objectName = Key imur,
                      urlParams = ''uploadId='' @ UploadID imur,
                      subResource = ''uploadId='' @ UploadID imur, reqOptions = [],
                      reqData = Buffer bs\<rparr>)])"
proof -
  have m: "mset (sortParts E parts) = mset parts"
    and s: "sorted (map PartNumber (sortParts E parts))"
    using contract_sortParts [OF contract] by simp_all
  have l: "length (sortParts E parts) = length parts"
    using m by (rule mset_eq_length)
  have r: "trace (snd (CompleteMultipartUpload E imur parts w)) =
              trace w @
              [EvDo \<lparr>httpMethod = ''POST'', objectName = Key imur,
                      urlParams = ''uploadId='' @ UploadID imur,
                      subResource = ''uploadId='' @ UploadID imur, reqOptions = [],
                      reqData = Buffer bs\<rparr>
                 (do_reply E (trace w)
                    \<lparr>httpMethod = ''POST'', objectName = Key imur,
                      urlParams = ''uploadId='' @ UploadID imur,
                      subResource = ''uploadId='' @ UploadID imur, reqOptions = [],
                      reqData = Buffer bs\<rparr>)]"
    if "xml_Marshal E (sortParts E parts) = (bs, None)" for bs
    using that
    by (simp add: CompleteMultipartUpload_def bucket_do_def Let_def split: prod.splits option.splits)
  from m l s r show ?thesis by blast
qed

text \<open>
  The small-slice sort keeps the promise; on four parts, two of them numbered 3, the body
  of the completion request lists the parts 1, 2, 3, 3.
\<close>

theorem CompleteMultipartUpload_order_witness:
  "sort_Sort_contract (demoEnv [] [] [])
   \<and> sortParts (demoEnv [] [] [])
     [\<lparr>PartNumber = 3, ETag = ''c''\<rparr>, \<lparr>PartNumber = 1, ETag = ''a''\<rparr>,
      \<lparr>PartNumber = 3, ETag = ''d''\<rparr>, \<lparr>PartNumber = 2, ETag = ''b''\<rparr>] =
     [\<lparr>PartNumber = 1, ETag = ''a''\<rparr>, \<lparr>PartNumber = 2, ETag = ''b''\<rparr>,
      \<lparr>PartNumber = 3, ETag = ''c''\<rparr>, \<lparr>PartNumber = 3, ETag = ''d''\<rparr>]
   \<and> sorted (map PartNumber (sortParts (demoEnv [] [] [])
     [\<lparr>PartNumber = 3, ETag = ''c''\<rparr>, \<lparr>PartNumber = 1, ETag = ''a''\<rparr>,
      \<lparr>PartNumber = 3, ETag = ''d''\<rparr>, \<lparr>PartNumber = 2, ETag = ''b''\<rparr>]))
   \<and> trace (snd (CompleteMultipartUpload (demoEnv [] [] []) \<lparr>Key = ''obj'', UploadID = ''u1''\<rparr>
     [\<lparr>PartNumber = 3, ETag = ''c''\<rparr>, \<lparr>PartNumber = 1, ETag = ''a''\<rparr>,
      \<lparr>PartNumber = 3, ETag = ''d''\<rparr>, \<lparr>PartNumber = 2, ETag = ''b''\<rparr>] world0)) =
     [EvDo \<lparr>httpMethod = ''POST'', objectName = ''obj'', urlParams = ''uploadId=u1'',
             subResource = ''uploadId=u1'', reqOptions = [], reqData = Buffer ''1a2b3c3d''\<rparr>
        (\<lparr>statusCode = 200, headers = (\<lambda>k. if k = ''ETag'' then ''tag'' else []),
           respBody = ''u1''\<rparr>, None)]"
proof -
  let ?E = "demoEnv [] [] []"
  let ?ps = "[\<lparr>PartNumber = 3, ETag = ''c''\<rparr>, \<lparr>PartNumber = 1, ETag = ''a''\<rparr>,
      \<lparr>PartNumber = 3, ETag = ''d''\<rparr>, \<lparr>PartNumber = 2, ETag = ''b''\<rparr>]"
  have c: "sort_Sort_contract ?E"
    by (rule demoEnv_contract)
  have v: "sortParts ?E ?ps =
     [\<lparr>PartNumber = 1, ETag = ''a''\<rparr>, \<lparr>PartNumber = 2, ETag = ''b''\<rparr>,
      \<lparr>PartNumber = 3, ETag = ''c''\<rparr>, \<lparr>PartNumber = 3, ETag = ''d''\<rparr>]"
    by (simp add: sortParts_def demo_simps sortSmall_simps upt_rec)
  have m: "xml_Marshal ?E (sortParts ?E ?ps) = (''1a2b3c3d'', None)"
    unfolding v by (simp add: demo_simps)
  from CompleteMultipartUpload_order [OF c, of ?ps "\<lparr>Key = ''obj'', UploadID = ''u1''\<rparr>" world0] m
  have "sorted (map PartNumber (sortParts ?E ?ps))"
    and "trace (snd (CompleteMultipartUpload ?E \<lparr>Key = ''obj'', UploadID = ''u1''\<rparr> ?ps world0)) =
      trace world0 @
      [EvDo \<lparr>httpMethod = ''POST'', objectName = Key \<lparr>Key = ''obj'', UploadID = ''u1''\<rparr>,
              urlParams = ''uploadId='' @ UploadID \<lparr>Key = ''obj'', UploadID = ''u1''\<rparr>,
              subResource = ''uploadId='' @ UploadID \<lparr>Key = ''obj'', UploadID = ''u1''\<rparr>,
              reqOptions = [], reqData = Buffer ''1a2b3c3d''\<rparr>
         (do_reply ?E (trace world0)
            \<lparr>httpMethod = ''POST'', objectName = Key \<lparr>Key = ''obj'', UploadID = ''u1''\<rparr>,
              urlParams = ''uploadId='' @ UploadID \<lparr>Key = ''obj'', UploadID = ''u1''\<rparr>,
              subResource = ''uploadId='' @ UploadID \<lparr>Key = ''obj'', UploadID = ''u1''\<rparr>,
              reqOptions = [], reqData = Buffer ''1a2b3c3d''\<rparr>)]"
    by blast+
  with c v show ?thesis
    by (simp add: demo_simps world0_def)
qed

subsection \<open>CompleteMultipartUpload: sorting again, sorting a permutation\<close>



subsection \<open>DownloadFile: the chunk size is checked first\<close>

text \<open>
  Claim C6. With a chunk size below 1 or above \<open>MaxPartSize\<close> (5 GiB), \<^verbatim>\<open>DownloadFile\<close>
  returns the error of the size check and leaves the world as it was: the history gains no
  event, so the metadata probe is not made, the destination file is not opened and no
  range is read; nothing is written.
\<close>

theorem DownloadFile_invalid_partSize:
  assumes "partSize < 1 \<or> partSize > MaxPartSize"
  shows "DownloadFile E objectKey filePath partSize options w =
           Some (Some (errorString ''oss: part size invalid range (1, 5GB]''), w)"
  using assms by (simp add: DownloadFile_def)

text \<open>
  The chunk sizes 0 and \<open>- 7\<close>, and one byte above the maximum, are refused with no event.
\<close>

theorem DownloadFile_invalid_partSize_witness:
  "DownloadFile (demoEnv [] ''250'' []) ''obj'' ''out'' 0 [] world0 =
     Some (Some (errorString ''oss: part size invalid range (1, 5GB]''), world0)
   \<and> DownloadFile (demoEnv [] ''250'' []) ''obj'' ''out'' 5368709121 [] world0 =
     Some (Some (errorString ''oss: part size invalid range (1, 5GB]''), world0)
   \<and> DownloadFile (demoEnv [] ''250'' []) ''obj'' ''out'' (- 7) [] world0 =
     Some (Some (errorString ''oss: part size invalid range (1, 5GB]''), world0)"
proof -
  have a: "(0::int) < 1 \<or> 0 > MaxPartSize" by simp
  have b: "(5368709121::int) < 1 \<or> 5368709121 > MaxPartSize" by (simp add: MaxPartSize_def)
  have c: "(- 7::int) < 1 \<or> - 7 > MaxPartSize" by simp
  show ?thesis
    using DownloadFile_invalid_partSize [OF a] DownloadFile_invalid_partSize [OF b]
      DownloadFile_invalid_partSize [OF c]
    by simp
qed

subsection \<open>DownloadFile: the ranges of a successful run\<close>

text \<open>
  Claim C7. Let the chunk size \<open>partSize\<close> be valid, the probe succeed and report the
  size \<open>objectSize > 0\<close>, and the destination file open; and let \<open>objectSize + partSize\<close>
  stay within \<open>2 ^ 63\<close>, so that the \<^verbatim>\<open>int64\<close> loop variable never wraps around. Then
  \<^verbatim>\<open>DownloadFile\<close> returns. When it returns without error, the events after the probe
  and the opening are exactly one \<^verbatim>\<open>GetObject\<close> call for each range of \<open>byteRanges
  objectSize partSize\<close>, in that order, the range of a call being the one its iteration
  appends, the last of its options; what was written is the bytes those calls delivered,
  in that order; and when each call delivered as many bytes as its range holds, the number
  of bytes written is \<open>objectSize\<close>.
\<close>

theorem DownloadFile_ranges:
  assumes size: "1 \<le> partSize" "partSize \<le> MaxPartSize"
    and pos: "0 < objectSize"
    and fits: "objectSize + partSize \<le> 2 ^ 63"
    and meta: "GetObjectDetailedMeta E (trace w) objectKey = (meta, None)"
    and opened: "os_OpenFile E (trace w @ [EvMeta objectKey (meta, None)]) filePath = None"
    and S: "objectSize = fst (ParseInt (Header_Get meta HTTPHeaderContentLength))"
  shows "\<exists>r wf. DownloadFile E objectKey filePath partSize options w = Some (r, wf) \<and>
     (r = None \<longrightarrow>
       (\<exists>evs. trace wf =
                trace w @ [EvMeta objectKey (meta, None), EvOpenFile filePath None] @ evs
          \<and> length evs = length (byteRanges objectSize partSize)
          \<and> map last (readOptions evs) =
              map (\<lambda>(s, e). RangeOpt s e) (byteRanges objectSize partSize)
          \<and> written wf = written w @ concat (readData evs)
          \<and> (list_all exactRead evs \<longrightarrow>
               int (length (written wf)) = int (length (written w)) + objectSize)))"
proof -
  let ?n = "nat ((objectSize + partSize - 1) div partSize)"
  let ?w2 = "w\<lparr>trace := trace w @ [EvMeta objectKey (meta, None), EvOpenFile filePath None]\<rparr>"
  have n: "0 < ?n"
    using chunk_count_less [OF size(1), of 0 objectSize] pos by simp
  have run: "DownloadFile E objectKey filePath partSize options w =
      downloadLoop E objectKey objectSize partSize (int 0 * partSize) options ?w2"
    unfolding DownloadFile_prelude [OF size meta opened] S [symmetric] by simp
  have ranges: "map (\<lambda>(s, e). RangeOpt s e) (byteRanges objectSize partSize) =
      map (spanAt objectSize partSize) [0 ..< ?n]"
    by (simp add: byteRanges_def spanAt_def)
  have len: "length (byteRanges objectSize partSize) = ?n - 0"
    by (simp add: byteRanges_def)
  from loop_ranges [OF size(1) fits, of 0 E objectKey options ?w2]
  obtain r wf where res: "downloadLoop E objectKey objectSize partSize (int 0 * partSize) options ?w2 =
      Some (r, wf)"
    and props: "r = None \<longrightarrow>
        (\<exists>evs. trace wf = trace ?w2 @ evs
           \<and> length evs = ?n - 0
           \<and> map last (readOptions evs) = map (spanAt objectSize partSize) [0 ..< ?n]
           \<and> written wf = written ?w2 @ concat (readData evs)
           \<and> (list_all exactRead evs \<longrightarrow>
                int (length (concat (readData evs))) =
                  (if 0 < ?n then objectSize - int 0 * partSize else 0)))"
    by blast
  have "\<exists>evs. trace wf =
                trace w @ [EvMeta objectKey (meta, None), EvOpenFile filePath None] @ evs
          \<and> length evs = length (byteRanges objectSize partSize)
          \<and> map last (readOptions evs) =
              map (\<lambda>(s, e). RangeOpt s e) (byteRanges objectSize partSize)
          \<and> written wf = written w @ concat (readData evs)
          \<and> (list_all exactRead evs \<longrightarrow>
               int (length (written wf)) = int (length (written w)) + objectSize)"
    if "r = None"
  proof -
    from props that obtain evs where
      e1: "trace wf = trace ?w2 @ evs" and e2: "length evs = ?n - 0"
      and e3: "map last (readOptions evs) = map (spanAt objectSize partSize) [0 ..< ?n]"
      and e4: "written wf = written ?w2 @ concat (readData evs)"
      and e5: "list_all exactRead evs \<longrightarrow>
                int (length (concat (readData evs))) =
                  (if 0 < ?n then objectSize - int 0 * partSize else 0)"
      by blast
    have "list_all exactRead evs \<longrightarrow>
               int (length (written wf)) = int (length (written w)) + objectSize"
      using e4 e5 n by simp
    with e1 e2 e3 e4 show ?thesis
      unfolding ranges len by (intro exI [of _ evs]) simp
  qed
  with run res show ?thesis by simp
qed

text \<open>
  An object of 250 bytes read in chunks of 100: the ranges are \<open>[0, 99]\<close>, \<open>[100, 199]\<close>
  and \<open>[200, 249]\<close>, read in that order, and the 250 bytes are written in that order.
\<close>

theorem DownloadFile_ranges_witness:
  "DownloadFile (demoEnv [] ''250'' []) ''obj'' ''out'' 100 [] world0 =
     Some (None,
       \<lparr>trace =
          [EvMeta ''obj'' ((\<lambda>n. if n = ''Content-Length'' then ''250'' else []), None),
           EvOpenFile ''out'' None,
           EvGetObject ''obj'' [RangeOpt 0 99] ((replicate 100 (CHR ''a''), None), None),
           EvGetObject ''obj'' [RangeOpt 0 99, RangeOpt 100 199]
             ((replicate 100 (CHR ''b''), None), None),
           EvGetObject ''obj'' [RangeOpt 0 99, RangeOpt 100 199, RangeOpt 200 249]
             ((replicate 50 (CHR ''c''), None), None)],
        written = replicate 100 (CHR ''a'') @ replicate 100 (CHR ''b'') @ replicate 50 (CHR ''c'')\<rparr>)
   \<and> byteRanges 250 100 = [(0, 99), (100, 199), (200, 249)]"
proof -
  let ?E = "demoEnv [] ''250'' []"
  let ?meta = "\<lambda>n. if n = ''Content-Length'' then ''250'' else []"
  have size: "(1::int) \<le> 100" "100 \<le> MaxPartSize"
    by (simp_all add: MaxPartSize_def)
  have pos: "(0::int) < 250" by simp
  have fits: "(250::int) + 100 \<le> 2 ^ 63" by simp
  have meta: "GetObjectDetailedMeta ?E (trace world0) ''obj'' = (?meta, None)"
    by (simp add: demo_simps)
  have opened: "os_OpenFile ?E (trace world0 @ [EvMeta ''obj'' (?meta, None)]) ''out'' = None"
    by (simp add: demo_simps)
  have S: "250 = fst (ParseInt (Header_Get ?meta HTTPHeaderContentLength))"
    by (simp add: Header_Get_def HTTPHeaderContentLength_def ParseInt_250)
  have ranges: "byteRanges 250 100 = [(0, 99), (100, 199), (200, 249)]"
    by (simp add: byteRanges_def upt_rec)
  from DownloadFile_ranges [OF size pos fits meta opened S, of "[]"] ranges
  show ?thesis
    by (simp add: demo_simps download_defs)
qed

subsection \<open>DownloadFile: a read fails\<close>

text \<open>
  Claim C8. Let the chunk size be valid, the probe succeed and the destination file open,
  let the loop complete \<open>k\<close> iterations and reach the state \<open>(i, os, wk)\<close> with
  \<open>i < objectSize\<close>, and let the next read, the call of \<^verbatim>\<open>GetObject\<close> with the options
  \<open>opts\<close>, fail with the error \<open>e\<close>, either at the request or while its stream is copied
  into the file after \<open>bytes\<close> were written. Then \<^verbatim>\<open>DownloadFile\<close> returns \<open>e\<close>; the
  history it leaves is the one of \<open>wk\<close> followed by that call alone, so no further range is
  requested; and the file holds what the \<open>k\<close> earlier reads wrote, in order, followed only
  by the bytes of a copy that failed midway: nothing is taken back. (The claim's \<open>k\<close>-th
  read is the read after \<open>k - 1\<close> complete iterations.)
\<close>

theorem DownloadFile_read_failure:
  assumes size: "1 \<le> partSize" "partSize \<le> MaxPartSize"
    and meta: "GetObjectDetailedMeta E (trace w) objectKey = (meta, None)"
    and opened: "os_OpenFile E (trace w @ [EvMeta objectKey (meta, None)]) filePath = None"
    and w2: "w2 = w\<lparr>trace := trace w @ [EvMeta objectKey (meta, None), EvOpenFile filePath None]\<rparr>"
    and S: "objectSize = fst (ParseInt (Header_Get meta HTTPHeaderContentLength))"
    and reads: "afterParts E objectKey objectSize partSize k 0 options w2 = Some (i, os, wk)"
    and more: "i < objectSize"
    and request: "opts = os @ [RangeOpt i (GetPartEnd i objectSize partSize)]"
    and reply: "GetObject E (trace wk) objectKey opts = ((bytes, cerr), rerr)"
    and failed: "rerr = Some e \<or> (rerr = None \<and> cerr = Some e)"
  shows "DownloadFile E objectKey filePath partSize options w =
           Some (Some e,
             wk\<lparr>trace := trace wk @ [EvGetObject objectKey opts ((bytes, cerr), rerr)],
                written := written wk @ (if rerr = None then bytes else [])\<rparr>)
       \<and> (\<exists>evs. trace wk = trace w2 @ evs \<and> length evs = k \<and> length (readOptions evs) = k \<and>
             length (readData evs) = k \<and> written wk = written w @ concat (readData evs))"
proof -
  have run: "DownloadFile E objectKey filePath partSize options w =
      downloadLoop E objectKey objectSize partSize i os wk"
    unfolding DownloadFile_prelude [OF size meta opened] S [symmetric] w2 [symmetric]
    by (rule afterParts_loop [OF reads])
  have part: "downloadPart E objectKey objectSize partSize i os wk =
      Inl (e, wk\<lparr>trace := trace wk @ [EvGetObject objectKey opts ((bytes, cerr), rerr)],
                written := written wk @ (if rerr = None then bytes else [])\<rparr>)"
    using failed reply unfolding request
    by (auto simp: downloadPart_def record_event_def Let_def)
  have res: "downloadLoop E objectKey objectSize partSize i os wk =
      Some (Some e, wk\<lparr>trace := trace wk @ [EvGetObject objectKey opts ((bytes, cerr), rerr)],
                written := written wk @ (if rerr = None then bytes else [])\<rparr>)"
    using more by (subst downloadLoop.simps) (simp add: part)
  have "afterParts E objectKey objectSize partSize k (loopIndex partSize 0) options w2 =
      Some (i, os, wk)"
    using reads by simp
  from afterParts_state [OF this]
  have "\<exists>evs. trace wk = trace w2 @ evs \<and> length evs = k \<and> length (readOptions evs) = k \<and>
             length (readData evs) = k \<and> written wk = written w2 @ concat (readData evs)"
    by blast
  moreover have "written w2 = written w"
    by (simp add: w2)
  ultimately show ?thesis
    using run res by simp
qed

text \<open>
  The object of 250 bytes read in chunks of 100, where the second read fails: the error is
  returned, the history ends with the second read, and the file holds the 100 bytes of the
  first range.
\<close>

theorem DownloadFile_read_failure_witness:
  "DownloadFile (demoEnv [] ''250'' [RangeOpt 100 199]) ''obj'' ''out'' 100 [] world0 =
     Some (Some (errorString ''read failed''),
       \<lparr>trace =
          [EvMeta ''obj'' ((\<lambda>n. if n = ''Content-Length'' then ''250'' else []), None),
           EvOpenFile ''out'' None,
           EvGetObject ''obj'' [RangeOpt 0 99] ((replicate 100 (CHR ''a''), None), None),
           EvGetObject ''obj'' [RangeOpt 0 99, RangeOpt 100 199]
             (([], None), Some (errorString ''read failed''))],
        written = replicate 100 (CHR ''a'')\<rparr>)"
proof -
  let ?E = "demoEnv [] ''250'' [RangeOpt 100 199]"
  let ?meta = "\<lambda>n. if n = ''Content-Length'' then ''250'' else []"
  let ?w2 = "world0\<lparr>trace := trace world0 @ [EvMeta ''obj'' (?meta, None), EvOpenFile ''out'' None]\<rparr>"
  let ?wk = "\<lparr>trace = [EvMeta ''obj'' (?meta, None), EvOpenFile ''out'' None,
       EvGetObject ''obj'' [RangeOpt 0 99] ((replicate 100 (CHR ''a''), None), None)],
     written = replicate 100 (CHR ''a'')\<rparr>"
  have size: "(1::int) \<le> 100" "100 \<le> MaxPartSize"
    by (simp_all add: MaxPartSize_def)
  have meta: "GetObjectDetailedMeta ?E (trace world0) ''obj'' = (?meta, None)"
    by (simp add: demo_simps)
  have opened: "os_OpenFile ?E (trace world0 @ [EvMeta ''obj'' (?meta, None)]) ''out'' = None"
    by (simp add: demo_simps)
  have S: "250 = fst (ParseInt (Header_Get ?meta HTTPHeaderContentLength))"
    by (simp add: Header_Get_def HTTPHeaderContentLength_def ParseInt_250)
  have reads: "afterParts ?E ''obj'' 250 100 (Suc 0) 0 [] ?w2 = Some (100, [RangeOpt 0 99], ?wk)"
    by (simp add: demo_simps download_defs)
  have more: "(100::int) < 250" by simp
  have request: "[RangeOpt 0 99, RangeOpt 100 199] =
      [RangeOpt 0 99] @ [RangeOpt 100 (GetPartEnd 100 250 100)]"
    by (simp add: GetPartEnd_def)
  have reply: "GetObject ?E (trace ?wk) ''obj'' [RangeOpt 0 99, RangeOpt 100 199] =
      (([], None), Some (errorString ''read failed''))"
    by (simp add: demo_simps)
  have failed: "Some (errorString ''read failed'') = Some (errorString ''read failed'') \<or>
      (Some (errorString ''read failed'') = None \<and> None = Some (errorString ''read failed''))"
    by simp
  from DownloadFile_read_failure [OF size meta opened refl S reads more request reply failed]
  show ?thesis
    by simp
qed

subsection \<open>DownloadFile: a Content-Length that does not parse\<close>

text \<open>
  Claim C9 says that when the \<^verbatim>\<open>Content-Length\<close> of the probe cannot be parsed, the size
  is taken as 0, no range is read and \<^verbatim>\<open>DownloadFile\<close> returns without error. The code
  drops the error of \<^verbatim>\<open>strconv.ParseInt\<close> and keeps its value, and that value is 0 only
  for a syntax error. For a number too large for \<^verbatim>\<open>int64\<close>, such as \<open>2 ^ 63\<close>,
  \<^verbatim>\<open>ParseInt\<close> fails with a range error and returns the largest \<^verbatim>\<open>int64\<close>: the loop
  runs, and here the first read is requested and its failure returned.
\<close>

theorem DownloadFile_out_of_range_length:
  "ParseInt ''9223372036854775808'' =
     (9223372036854775807, Some (NumError ''ParseInt'' ''9223372036854775808'' ErrRange))
   \<and> DownloadFile (demoEnv [] ''9223372036854775808'' [RangeOpt 0 99]) ''obj'' ''out'' 100 []
       world0 =
     Some (Some (errorString ''read failed''),
       \<lparr>trace =
          [EvMeta ''obj''
             ((\<lambda>n. if n = ''Content-Length'' then ''9223372036854775808'' else []), None),
           EvOpenFile ''out'' None,
           EvGetObject ''obj'' [RangeOpt 0 99] (([], None), Some (errorString ''read failed''))],
        written = []\<rparr>)"
proof -
  have p: "ParseInt ''9223372036854775808'' =
     (9223372036854775807, Some (NumError ''ParseInt'' ''9223372036854775808'' ErrRange))"
    by (simp add: ParseInt_def ParseUint_def maxUint64_def Let_def)
  show ?thesis
    unfolding p
    by (simp add: demo_simps DownloadFile_def downloadPart_def downloadLoop.simps record_event_def
      world0_def MaxPartSize_def Let_def Header_Get_def HTTPHeaderContentLength_def GetPartEnd_def p)
qed

text \<open>
  Claim C9, for a syntax error: when the probe succeeds, the destination file opens, and
  \<^verbatim>\<open>ParseInt\<close> rejects the \<^verbatim>\<open>Content-Length\<close> with a syntax error (as it does when
  the value is empty or absent, or is not a number at all), the size is 0 and
  \<^verbatim>\<open>DownloadFile\<close> returns without error after the probe and the opening, its only two
  events: no range is read and nothing is written.
\<close>

theorem DownloadFile_syntax_error_length:
  assumes size: "1 \<le> partSize" "partSize \<le> MaxPartSize"
    and meta: "GetObjectDetailedMeta E (trace w) objectKey = (meta, None)"
    and opened: "os_OpenFile E (trace w @ [EvMeta objectKey (meta, None)]) filePath = None"
    and unparsed: "snd (ParseInt (Header_Get meta HTTPHeaderContentLength)) =
                   Some (NumError f n ErrSyntax)"
  shows "fst (ParseInt (Header_Get meta HTTPHeaderContentLength)) = 0
       \<and> DownloadFile E objectKey filePath partSize options w =
           Some (None,
             w\<lparr>trace := trace w @ [EvMeta objectKey (meta, None), EvOpenFile filePath None]\<rparr>)"
proof -
  have zero: "fst (ParseInt (Header_Get meta HTTPHeaderContentLength)) = 0"
    by (rule ParseInt_syntax_zero [OF unparsed])
  show ?thesis
    unfolding DownloadFile_prelude [OF size meta opened] zero
    by (subst downloadLoop.simps) simp
qed

text \<open>
  With the length \<^verbatim>\<open>12a\<close> the run ends after the probe and the opening, without error.
\<close>

theorem DownloadFile_syntax_error_length_witness:
  "ParseInt ''12a'' = (0, Some (NumError ''ParseInt'' ''12a'' ErrSyntax))
   \<and> DownloadFile (demoEnv [] ''12a'' []) ''obj'' ''out'' 100 [] world0 =
     Some (None,
       \<lparr>trace =
          [EvMeta ''obj'' ((\<lambda>n. if n = ''Content-Length'' then ''12a'' else []), None),
           EvOpenFile ''out'' None],
        written = []\<rparr>)"
proof -
  let ?E = "demoEnv [] ''12a'' []"
  let ?meta = "\<lambda>n. if n = ''Content-Length'' then ''12a'' else []"
  have size: "(1::int) \<le> 100" "100 \<le> MaxPartSize"
    by (simp_all add: MaxPartSize_def)
  have meta: "GetObjectDetailedMeta ?E (trace world0) ''obj'' = (?meta, None)"
    by (simp add: demo_simps)
  have opened: "os_OpenFile ?E (trace world0 @ [EvMeta ''obj'' (?meta, None)]) ''out'' = None"
    by (simp add: demo_simps)
  have unparsed: "snd (ParseInt (Header_Get ?meta HTTPHeaderContentLength)) =
      Some (NumError ''ParseInt'' ''12a'' ErrSyntax)"
    by (simp add: Header_Get_def HTTPHeaderContentLength_def ParseInt_12a)
  from DownloadFile_syntax_error_length [OF size meta opened unparsed, of "[]"]
  show ?thesis
    by (simp add: ParseInt_12a world0_def)
qed

subsection \<open>DownloadFile: the options pile up\<close>

text \<open>
  Claim C10. Let the chunk size be valid, the probe succeed and the destination file open,
  and let the loop complete \<open>k\<close> iterations and reach the state \<open>(i, os, wk)\<close> with
  \<open>i < objectSize\<close>. Then \<open>i\<close> is the loop variable after \<open>k\<close> increments, and the next
  thing \<^verbatim>\<open>DownloadFile\<close> does is the iteration that calls \<^verbatim>\<open>GetObject\<close> with \<open>opts\<close>: the
  caller's options followed by the \<open>k + 1\<close> range options of all the iterations so far, this
  one included, and not by the range of this iteration alone.
\<close>

theorem DownloadFile_options_accumulate:
  assumes size: "1 \<le> partSize" "partSize \<le> MaxPartSize"
    and meta: "GetObjectDetailedMeta E (trace w) objectKey = (meta, None)"
    and opened: "os_OpenFile E (trace w @ [EvMeta objectKey (meta, None)]) filePath = None"
    and w2: "w2 = w\<lparr>trace := trace w @ [EvMeta objectKey (meta, None), EvOpenFile filePath None]\<rparr>"
    and S: "objectSize = fst (ParseInt (Header_Get meta HTTPHeaderContentLength))"
    and reads: "afterParts E objectKey objectSize partSize k 0 options w2 = Some (i, os, wk)"
    and more: "i < objectSize"
    and opts: "opts = options @
        map (\<lambda>j. RangeOpt (loopIndex partSize j)
                  (GetPartEnd (loopIndex partSize j) objectSize partSize)) [0 ..< Suc k]"
  shows "i = loopIndex partSize k
       \<and> os @ [RangeOpt i (GetPartEnd i objectSize partSize)] = opts
       \<and> length opts = length options + Suc k
       \<and> DownloadFile E objectKey filePath partSize options w =
           (case downloadPart E objectKey objectSize partSize i os wk of
              Inl (e, w1) \<Rightarrow> Some (Some e, w1)
            | Inr (i1, os1, w1) \<Rightarrow> downloadLoop E objectKey objectSize partSize i1 os1 w1)
       \<and> trace (worldAfter (downloadPart E objectKey objectSize partSize i os wk)) =
           trace wk @ [EvGetObject objectKey opts (GetObject E (trace wk) objectKey opts)]"
proof -
  have run: "DownloadFile E objectKey filePath partSize options w =
      downloadLoop E objectKey objectSize partSize i os wk"
    unfolding DownloadFile_prelude [OF size meta opened] S [symmetric] w2 [symmetric]
    by (rule afterParts_loop [OF reads])
  have step: "downloadLoop E objectKey objectSize partSize i os wk =
      (case downloadPart E objectKey objectSize partSize i os wk of
              Inl (e, w1) \<Rightarrow> Some (Some e, w1)
            | Inr (i1, os1, w1) \<Rightarrow> downloadLoop E objectKey objectSize partSize i1 os1 w1)"
    using more by (subst downloadLoop.simps) simp
  have "afterParts E objectKey objectSize partSize k (loopIndex partSize 0) options w2 =
      Some (i, os, wk)"
    using reads by simp
  from afterParts_state [OF this]
  have i: "i = loopIndex partSize k"
    and os: "os = options @ map (rangeAt objectSize partSize) [0 ..< k]"
    by simp_all
  have o: "os @ [RangeOpt i (GetPartEnd i objectSize partSize)] = opts"
    unfolding opts os i by (simp add: rangeAt_def)
  have len: "length opts = length options + Suc k"
    unfolding opts by simp
  have tr: "trace (worldAfter (downloadPart E objectKey objectSize partSize i os wk)) =
      trace wk @ [EvGetObject objectKey opts (GetObject E (trace wk) objectKey opts)]"
    unfolding downloadPart_world readEvent_def o ..
  show ?thesis
    using i o len run step tr by simp
qed

text \<open>
  With one option of the caller's and chunks of 100 on the object of 250 bytes, the third
  read carries that option and the three ranges.
\<close>

theorem DownloadFile_options_accumulate_witness:
  "afterParts (demoEnv [] ''250'' []) ''obj'' 250 100 2 0 [OtherOption ''If-Match'' ''tag'']
     (world0\<lparr>trace := trace world0 @
        [EvMeta ''obj'' ((\<lambda>n. if n = ''Content-Length'' then ''250'' else []), None),
         EvOpenFile ''out'' None]\<rparr>) =
     Some (200, [OtherOption ''If-Match'' ''tag'', RangeOpt 0 99, RangeOpt 100 199],
       \<lparr>trace =
          [EvMeta ''obj'' ((\<lambda>n. if n = ''Content-Length'' then ''250'' else []), None),
           EvOpenFile ''out'' None,
           EvGetObject ''obj'' [OtherOption ''If-Match'' ''tag'', RangeOpt 0 99]
             ((replicate 100 (CHR ''a''), None), None),
           EvGetObject ''obj'' [OtherOption ''If-Match'' ''tag'', RangeOpt 0 99, RangeOpt 100 199]
             ((replicate 100 (CHR ''b''), None), None)],
        written = replicate 100 (CHR ''a'') @ replicate 100 (CHR ''b'')\<rparr>)
   \<and> last (trace (worldAfter (downloadPart (demoEnv [] ''250'' []) ''obj'' 250 100 200
        [OtherOption ''If-Match'' ''tag'', RangeOpt 0 99, RangeOpt 100 199]
        \<lparr>trace =
          [EvMeta ''obj'' ((\<lambda>n. if n = ''Content-Length'' then ''250'' else []), None),
           EvOpenFile ''out'' None,
           EvGetObject ''obj'' [OtherOption ''If-Match'' ''tag'', RangeOpt 0 99]
             ((replicate 100 (CHR ''a''), None), None),
           EvGetObject ''obj'' [OtherOption ''If-Match'' ''tag'', RangeOpt 0 99, RangeOpt 100 199]
             ((replicate 100 (CHR ''b''), None), None)],
        written = replicate 100 (CHR ''a'') @ replicate 100 (CHR ''b'')\<rparr>))) =
     EvGetObject ''obj''
       [OtherOption ''If-Match'' ''tag'', RangeOpt 0 99, RangeOpt 100 199, RangeOpt 200 249]
       ((replicate 50 (CHR ''c''), None), None)"
proof -
  let ?E = "demoEnv [] ''250'' []"
  let ?meta = "\<lambda>n. if n = ''Content-Length'' then ''250'' else []"
  let ?o = "[OtherOption ''If-Match'' ''tag'']"
  let ?w2 = "world0\<lparr>trace := trace world0 @ [EvMeta ''obj'' (?meta, None), EvOpenFile ''out'' None]\<rparr>"
  let ?wk = "\<lparr>trace =
          [EvMeta ''obj'' (?meta, None),
           EvOpenFile ''out'' None,
           EvGetObject ''obj'' [OtherOption ''If-Match'' ''tag'', RangeOpt 0 99]
             ((replicate 100 (CHR ''a''), None), None),
           EvGetObject ''obj'' [OtherOption ''If-Match'' ''tag'', RangeOpt 0 99, RangeOpt 100 199]
             ((replicate 100 (CHR ''b''), None), None)],
        written = replicate 100 (CHR ''a'') @ replicate 100 (CHR ''b'')\<rparr>"
  have size: "(1::int) \<le> 100" "100 \<le> MaxPartSize"
    by (simp_all add: MaxPartSize_def)
  have meta: "GetObjectDetailedMeta ?E (trace world0) ''obj'' = (?meta, None)"
    by (simp add: demo_simps)
  have opened: "os_OpenFile ?E (trace world0 @ [EvMeta ''obj'' (?meta, None)]) ''out'' = None"
    by (simp add: demo_simps)
  have S: "250 = fst (ParseInt (Header_Get ?meta HTTPHeaderContentLength))"
    by (simp add: Header_Get_def HTTPHeaderContentLength_def ParseInt_250)
  have reads: "afterParts ?E ''obj'' 250 100 2 0 ?o ?w2 =
      Some (200, [OtherOption ''If-Match'' ''tag'', RangeOpt 0 99, RangeOpt 100 199], ?wk)"
    by (simp add: demo_simps download_defs numeral_2_eq_2)
  have more: "(200::int) < 250" by simp
  have idx: "loopIndex 100 0 = 0" "loopIndex 100 1 = 100" "loopIndex 100 2 = 200"
    by (simp_all add: loopIndex_def int64_def numeral_2_eq_2)
  have opts: "[OtherOption ''If-Match'' ''tag'', RangeOpt 0 99, RangeOpt 100 199, RangeOpt 200 249] =
      ?o @ map (\<lambda>j. RangeOpt (loopIndex 100 j) (GetPartEnd (loopIndex 100 j) 250 100)) [0 ..< Suc 2]"
    using idx by (simp add: GetPartEnd_def upt_rec numeral_2_eq_2)
  from DownloadFile_options_accumulate [OF size meta opened refl S reads more opts]
  have "trace (worldAfter (downloadPart ?E ''obj'' 250 100 200
          [OtherOption ''If-Match'' ''tag'', RangeOpt 0 99, RangeOpt 100 199] ?wk)) =
      trace ?wk @ [EvGetObject ''obj''
         [OtherOption ''If-Match'' ''tag'', RangeOpt 0 99, RangeOpt 100 199, RangeOpt 200 249]
         (GetObject ?E (trace ?wk) ''obj''
           [OtherOption ''If-Match'' ''tag'', RangeOpt 0 99, RangeOpt 100 199, RangeOpt 200 249])]"
    by blast
  with reads show ?thesis
    by (simp add: demo_simps serveRange_def demoObject_def)
qed

end
